theory Spec2Isabelle
  imports Main "HOL-Library.List_Lexorder" "HOL-Library.Char_ord"
begin

section \<open>Data model of the library store\<close>

text \<open>
  The records of \<^verbatim>\<open>AdvancedLibraryDB\<close>. A \<^verbatim>\<open>Date\<close> is its \<^verbatim>\<open>getTime()\<close> value, the
  number of milliseconds since the epoch, and the copy counters are integers. Field names
  carry a prefix per record (\<open>b_\<close>, \<open>m_\<close>, \<open>i_\<close>, \<open>s_\<close>), since the source uses
  \<^verbatim>\<open>id\<close>, \<^verbatim>\<open>memberId\<close>, \<^verbatim>\<open>createdAt\<close> and \<^verbatim>\<open>updatedAt\<close> in several interfaces.
\<close>

type_synonym date = int

datatype status = Issued | Returned | Overdue

datatype theme = Light | Dark

record Book =
  b_id :: string
  b_title :: string
  b_author :: string
  b_category :: string
  b_publicationYear :: int
  b_isbn :: "string option"
  b_totalCopies :: int
  b_availableCopies :: int
  b_createdAt :: date
  b_updatedAt :: date

record Member =
  m_id :: string
  m_memberId :: string
  m_name :: string
  m_phone :: string
  m_email :: string
  m_address :: "string option"
  m_createdAt :: date
  m_updatedAt :: date

record Issue =
  i_id :: string
  i_bookId :: string
  i_memberId :: string
  i_bookTitle :: string
  i_memberName :: string
  i_issueDate :: date
  i_dueDate :: date
  i_returnDate :: "date option"
  i_status :: status
  i_createdAt :: date
  i_updatedAt :: date

record LibrarySettings =
  s_id :: string
  s_defaultLoanDuration :: int
  s_theme :: theme
  s_autoNotifications :: bool
  s_finePerDay :: int
  s_maxBooksPerMember :: int
  s_updatedAt :: date

text \<open>The argument of \<^verbatim>\<open>addBook\<close>: \<^verbatim>\<open>Omit<Book, 'id' | 'createdAt' | 'updatedAt'>\<close>.\<close>

record BookData =
  bd_title :: string
  bd_author :: string
  bd_category :: string
  bd_publicationYear :: int
  bd_isbn :: "string option"
  bd_totalCopies :: int
  bd_availableCopies :: int

text \<open>
  The argument of \<^verbatim>\<open>updateBook\<close>: \<^verbatim>\<open>Partial<Omit<Book, 'id' | 'createdAt'>>\<close>. \<open>None\<close> is
  an absent property. A supplied \<^verbatim>\<open>updatedAt\<close> is always overwritten by the later
  \<^verbatim>\<open>updatedAt: new Date()\<close> of the merge, so it is left out.
\<close>

record BookUpdates =
  bu_title :: "string option"
  bu_author :: "string option"
  bu_category :: "string option"
  bu_publicationYear :: "int option"
  bu_isbn :: "string option option"
  bu_totalCopies :: "int option"
  bu_availableCopies :: "int option"

text \<open>The argument of \<^verbatim>\<open>addMember\<close>.\<close>

record MemberData =
  md_name :: string
  md_phone :: string
  md_email :: string
  md_address :: "string option"

text \<open>The argument of \<^verbatim>\<open>updateMember\<close>: \<^verbatim>\<open>Partial<Omit<Member, 'id' | 'memberId' | 'createdAt'>>\<close>.\<close>

record MemberUpdates =
  mu_name :: "string option"
  mu_phone :: "string option"
  mu_email :: "string option"
  mu_address :: "string option option"

text \<open>The argument of \<^verbatim>\<open>updateIssue\<close>: \<^verbatim>\<open>Partial<Issue>\<close>.\<close>

record IssueUpdates =
  iu_id :: "string option"
  iu_bookId :: "string option"
  iu_memberId :: "string option"
  iu_bookTitle :: "string option"
  iu_memberName :: "string option"
  iu_issueDate :: "date option"
  iu_dueDate :: "date option"
  iu_returnDate :: "date option option"
  iu_status :: "status option"
  iu_createdAt :: "date option"

text \<open>The argument of \<^verbatim>\<open>saveSettings\<close>: \<^verbatim>\<open>Partial<LibrarySettings>\<close>.\<close>

record SettingsUpdates =
  su_defaultLoanDuration :: "int option"
  su_theme :: "theme option"
  su_autoNotifications :: "bool option"
  su_finePerDay :: "int option"
  su_maxBooksPerMember :: "int option"

text \<open>The document that \<^verbatim>\<open>exportData\<close> returns and \<^verbatim>\<open>importData\<close> reads (every part optional).\<close>

record Document =
  doc_books :: "Book list option"
  doc_members :: "Member list option"
  doc_issues :: "Issue list option"
  doc_settings :: "LibrarySettings option"

text \<open>
  The state of the wrapper: the three object stores with key path \<^verbatim>\<open>id\<close>, the settings
  store (only the key \<^verbatim>\<open>'default'\<close> is ever read or written, so it holds at most one
  record) and the field \<^verbatim>\<open>this.settings\<close>.
\<close>

record DB =
  books :: "Book list"
  members :: "Member list"
  issues :: "Issue list"
  settingsStore :: "LibrarySettings option"
  this_settings :: LibrarySettings

text \<open>The messages of the \<^verbatim>\<open>Error\<close>s the operations throw or reject with.\<close>

datatype error =
    BookNotFound
  | MemberNotFound
  | NoCopiesAvailable
  | MemberLimitReached int
  | FailedToIssueBook
  | IssueRecordNotFound
  | BookAlreadyReturned
  | IssueNotFound
  | FailedToAddBook
  | FailedToAddMember
  | EmailExists
  | PhoneExists
  | TypeError

text \<open>
  What the caller of an \<^verbatim>\<open>async\<close> operation observes: the promise resolves with a value,
  rejects with an error, or never settles. The last case is an \<^verbatim>\<open>async\<close> event handler
  whose body throws before it calls \<^verbatim>\<open>resolve\<close>: the handler's own promise rejects, nothing
  handles it, and neither \<^verbatim>\<open>resolve\<close> nor \<^verbatim>\<open>reject\<close> of the enclosing promise runs.
\<close>

datatype 'a promise = Resolved 'a | Rejected error | Pending

section \<open>Object stores\<close>

text \<open>
  An object store with key path \<^verbatim>\<open>id\<close> is the list of its records in ascending key order,
  the order in which \<^verbatim>\<open>getAll\<close> returns them. \<^verbatim>\<open>add\<close> fails on a key that is present,
  \<^verbatim>\<open>put\<close> replaces the record of that key. Failures of the storage itself (quota,
  aborted transactions) are outside the model.
\<close>

definition store_get :: "('a \<Rightarrow> string) \<Rightarrow> string \<Rightarrow> 'a list \<Rightarrow> 'a option" where
  "store_get key k xs = find (\<lambda>r. key r = k) xs"

definition store_put :: "('a \<Rightarrow> string) \<Rightarrow> 'a \<Rightarrow> 'a list \<Rightarrow> 'a list" where
  "store_put key r xs = insort_key key r (filter (\<lambda>x. key x \<noteq> key r) xs)"

definition store_add :: "('a \<Rightarrow> string) \<Rightarrow> 'a \<Rightarrow> 'a list \<Rightarrow> 'a list option" where
  "store_add key r xs =
     (if store_get key (key r) xs = None then Some (insort_key key r xs) else None)"

definition store_delete :: "('a \<Rightarrow> string) \<Rightarrow> string \<Rightarrow> 'a list \<Rightarrow> 'a list" where
  "store_delete key k xs = filter (\<lambda>x. key x \<noteq> k) xs"

text \<open>The invariant of an object store: keys are unique and ascending.\<close>

definition store_ok :: "('a \<Rightarrow> string) \<Rightarrow> 'a list \<Rightarrow> bool" where
  "store_ok key xs = (sorted (map key xs) \<and> distinct (map key xs))"

text \<open>\<^verbatim>\<open>await p\<close> followed by the rest of the function body.\<close>

definition await :: "'a promise \<times> DB \<Rightarrow> ('a \<Rightarrow> DB \<Rightarrow> 'b promise \<times> DB) \<Rightarrow> 'b promise \<times> DB" where
  "await p f =
     (case p of
        (Resolved v, db) \<Rightarrow> f v db
      | (Rejected e, db) \<Rightarrow> (Rejected e, db)
      | (Pending, db) \<Rightarrow> (Pending, db))"

text \<open>
  \<^verbatim>\<open>request.onsuccess = async () => { await p; resolve(v) }\<close> inside \<^verbatim>\<open>new Promise\<close>: when
  \<^verbatim>\<open>p\<close> rejects, the handler throws and the enclosing promise is never settled.
\<close>

definition in_handler :: "'a promise \<times> DB \<Rightarrow> 'b \<Rightarrow> 'b promise \<times> DB" where
  "in_handler p v =
     (case p of
        (Resolved _, db) \<Rightarrow> (Resolved v, db)
      | (Rejected _, db) \<Rightarrow> (Pending, db)
      | (Pending, db) \<Rightarrow> (Pending, db))"

section \<open>Book operations\<close>

text \<open>
  Every operation takes what the source draws from its environment as arguments: the
  result of \<^verbatim>\<open>crypto.randomUUID()\<close> (\<open>newId\<close>) and the instant \<open>now\<close> that the
  \<^verbatim>\<open>new Date()\<close> calls of the operation read.
\<close>

definition addBook :: "string \<Rightarrow> date \<Rightarrow> BookData \<Rightarrow> DB \<Rightarrow> Book promise \<times> DB" where
  "addBook newId now bookData db =
     (let book = \<lparr> b_id = newId,
                   b_title = bd_title bookData,
                   b_author = bd_author bookData,
                   b_category = bd_category bookData,
                   b_publicationYear = bd_publicationYear bookData,
                   b_isbn = bd_isbn bookData,
                   b_totalCopies = bd_totalCopies bookData,
                   b_availableCopies = bd_totalCopies bookData,
                   b_createdAt = now,
                   b_updatedAt = now \<rparr>
      in case store_add b_id book (books db) of
           None \<Rightarrow> (Rejected FailedToAddBook, db)
         | Some bs \<Rightarrow> (Resolved book, db\<lparr>books := bs\<rparr>))"

definition getAllBooks :: "DB \<Rightarrow> Book list" where
  "getAllBooks db = books db"

definition getBookById :: "string \<Rightarrow> DB \<Rightarrow> Book option" where
  "getBookById k db = store_get b_id k (books db)"

definition merge_book :: "Book \<Rightarrow> BookUpdates \<Rightarrow> date \<Rightarrow> Book" where
  "merge_book existingBook updates now =
     \<lparr> b_id = b_id existingBook,
       b_title = (case bu_title updates of None \<Rightarrow> b_title existingBook | Some v \<Rightarrow> v),
       b_author = (case bu_author updates of None \<Rightarrow> b_author existingBook | Some v \<Rightarrow> v),
       b_category = (case bu_category updates of None \<Rightarrow> b_category existingBook | Some v \<Rightarrow> v),
       b_publicationYear =
         (case bu_publicationYear updates of None \<Rightarrow> b_publicationYear existingBook | Some v \<Rightarrow> v),
       b_isbn = (case bu_isbn updates of None \<Rightarrow> b_isbn existingBook | Some v \<Rightarrow> v),
       b_totalCopies =
         (case bu_totalCopies updates of None \<Rightarrow> b_totalCopies existingBook | Some v \<Rightarrow> v),
       b_availableCopies =
         (case bu_availableCopies updates of None \<Rightarrow> b_availableCopies existingBook | Some v \<Rightarrow> v),
       b_createdAt = b_createdAt existingBook,
       b_updatedAt = now \<rparr>"

definition updateBook :: "string \<Rightarrow> BookUpdates \<Rightarrow> date \<Rightarrow> DB \<Rightarrow> Book promise \<times> DB" where
  "updateBook k updates now db =
     (case store_get b_id k (books db) of
        None \<Rightarrow> (Rejected BookNotFound, db)
      | Some existingBook \<Rightarrow>
          (let updatedBook = merge_book existingBook updates now
           in (Resolved updatedBook, db\<lparr>books := store_put b_id updatedBook (books db)\<rparr>)))"

definition deleteBook :: "string \<Rightarrow> DB \<Rightarrow> unit promise \<times> DB" where
  "deleteBook k db = (Resolved (), db\<lparr>books := store_delete b_id k (books db)\<rparr>)"

definition no_book_updates :: BookUpdates where
  "no_book_updates =
     \<lparr> bu_title = None, bu_author = None, bu_category = None, bu_publicationYear = None,
       bu_isbn = None, bu_totalCopies = None, bu_availableCopies = None \<rparr>"

definition updateBookAvailability :: "string \<Rightarrow> int \<Rightarrow> date \<Rightarrow> DB \<Rightarrow> unit promise \<times> DB" where
  "updateBookAvailability bookId change now db =
     (case getBookById bookId db of
        None \<Rightarrow> (Rejected BookNotFound, db)
      | Some book \<Rightarrow>
          (let newAvailableCopies =
                 max 0 (min (b_totalCopies book) (b_availableCopies book + change))
           in await
                (updateBook bookId (no_book_updates\<lparr>bu_availableCopies := Some newAvailableCopies\<rparr>)
                   now db)
                (\<lambda>_ db'. (Resolved (), db'))))"

section \<open>Member operations\<close>

text \<open>
  \<open>newMemberId\<close> is the result of \<^verbatim>\<open>generateMemberId()\<close>. The members store has a unique
  index on \<^verbatim>\<open>memberId\<close>, so \<^verbatim>\<open>store.add\<close> also fails on a member code that is in use.
\<close>

definition getAllMembers :: "DB \<Rightarrow> Member list" where
  "getAllMembers db = members db"

definition getMemberById :: "string \<Rightarrow> DB \<Rightarrow> Member option" where
  "getMemberById k db = store_get m_id k (members db)"

definition addMember :: "string \<Rightarrow> string \<Rightarrow> date \<Rightarrow> MemberData \<Rightarrow> DB \<Rightarrow> Member promise \<times> DB" where
  "addMember newId newMemberId now memberData db =
     (let existingMembers = getAllMembers db;
          emailExists = list_ex (\<lambda>m. m_email m = md_email memberData) existingMembers;
          phoneExists = list_ex (\<lambda>m. m_phone m = md_phone memberData) existingMembers
      in if emailExists then (Rejected EmailExists, db)
         else if phoneExists then (Rejected PhoneExists, db)
         else
           (let member = \<lparr> m_id = newId,
                            m_memberId = newMemberId,
                            m_name = md_name memberData,
                            m_phone = md_phone memberData,
                            m_email = md_email memberData,
                            m_address = md_address memberData,
                            m_createdAt = now,
                            m_updatedAt = now \<rparr>
            in if list_ex (\<lambda>m. m_memberId m = newMemberId) (members db)
               then (Rejected FailedToAddMember, db)
               else case store_add m_id member (members db) of
                      None \<Rightarrow> (Rejected FailedToAddMember, db)
                    | Some ms \<Rightarrow> (Resolved member, db\<lparr>members := ms\<rparr>)))"

definition merge_member :: "Member \<Rightarrow> MemberUpdates \<Rightarrow> date \<Rightarrow> Member" where
  "merge_member existingMember updates now =
     \<lparr> m_id = m_id existingMember,
       m_memberId = m_memberId existingMember,
       m_name = (case mu_name updates of None \<Rightarrow> m_name existingMember | Some v \<Rightarrow> v),
       m_phone = (case mu_phone updates of None \<Rightarrow> m_phone existingMember | Some v \<Rightarrow> v),
       m_email = (case mu_email updates of None \<Rightarrow> m_email existingMember | Some v \<Rightarrow> v),
       m_address = (case mu_address updates of None \<Rightarrow> m_address existingMember | Some v \<Rightarrow> v),
       m_createdAt = m_createdAt existingMember,
       m_updatedAt = now \<rparr>"

definition updateMember :: "string \<Rightarrow> MemberUpdates \<Rightarrow> date \<Rightarrow> DB \<Rightarrow> Member promise \<times> DB" where
  "updateMember k updates now db =
     (case store_get m_id k (members db) of
        None \<Rightarrow> (Rejected MemberNotFound, db)
      | Some existingMember \<Rightarrow>
          (let updatedMember = merge_member existingMember updates now
           in (Resolved updatedMember, db\<lparr>members := store_put m_id updatedMember (members db)\<rparr>)))"

definition deleteMember :: "string \<Rightarrow> DB \<Rightarrow> unit promise \<times> DB" where
  "deleteMember k db = (Resolved (), db\<lparr>members := store_delete m_id k (members db)\<rparr>)"

section \<open>Settings operations\<close>

definition getSettings :: "DB \<Rightarrow> LibrarySettings option" where
  "getSettings db = settingsStore db"

definition merge_settings :: "LibrarySettings \<Rightarrow> SettingsUpdates \<Rightarrow> date \<Rightarrow> LibrarySettings" where
  "merge_settings cur upd now =
     \<lparr> s_id = ''default'',
       s_defaultLoanDuration =
         (case su_defaultLoanDuration upd of None \<Rightarrow> s_defaultLoanDuration cur | Some v \<Rightarrow> v),
       s_theme = (case su_theme upd of None \<Rightarrow> s_theme cur | Some v \<Rightarrow> v),
       s_autoNotifications =
         (case su_autoNotifications upd of None \<Rightarrow> s_autoNotifications cur | Some v \<Rightarrow> v),
       s_finePerDay = (case su_finePerDay upd of None \<Rightarrow> s_finePerDay cur | Some v \<Rightarrow> v),
       s_maxBooksPerMember =
         (case su_maxBooksPerMember upd of None \<Rightarrow> s_maxBooksPerMember cur | Some v \<Rightarrow> v),
       s_updatedAt = now \<rparr>"

definition saveSettings :: "SettingsUpdates \<Rightarrow> date \<Rightarrow> DB \<Rightarrow> LibrarySettings promise \<times> DB" where
  "saveSettings upd now db =
     (let updatedSettings = merge_settings (this_settings db) upd now
      in (Resolved updatedSettings,
          db\<lparr>this_settings := updatedSettings, settingsStore := Some updatedSettings\<rparr>))"

text \<open>A complete \<^verbatim>\<open>LibrarySettings\<close> object passed where a \<^verbatim>\<open>Partial\<close> is expected.\<close>

definition all_settings :: "LibrarySettings \<Rightarrow> SettingsUpdates" where
  "all_settings s =
     \<lparr> su_defaultLoanDuration = Some (s_defaultLoanDuration s),
       su_theme = Some (s_theme s),
       su_autoNotifications = Some (s_autoNotifications s),
       su_finePerDay = Some (s_finePerDay s),
       su_maxBooksPerMember = Some (s_maxBooksPerMember s) \<rparr>"

section \<open>Issue operations\<close>

definition getAllIssues :: "DB \<Rightarrow> Issue list" where
  "getAllIssues db = issues db"

definition getMemberIssues :: "string \<Rightarrow> DB \<Rightarrow> Issue list" where
  "getMemberIssues memberId db =
     filter (\<lambda>issue. i_memberId issue = memberId \<and> i_status issue = Issued) (getAllIssues db)"

text \<open>
  \<^verbatim>\<open>issueBook\<close>. Reading \<^verbatim>\<open>settings.maxBooksPerMember\<close> when no settings record is stored
  (\<^verbatim>\<open>getSettings\<close> gave \<^verbatim>\<open>null\<close>) throws a \<^verbatim>\<open>TypeError\<close>. A \<^verbatim>\<open>Date\<close> is truthy, so
  \<^verbatim>\<open>issueData.dueDate || ...\<close> is the supplied due date whenever there is one.
\<close>

definition issueBook ::
  "string \<Rightarrow> date \<Rightarrow> string \<Rightarrow> string \<Rightarrow> date option \<Rightarrow> DB \<Rightarrow> Issue promise \<times> DB" where
  "issueBook newId now bookId memberId dueDateArg db =
     (case getBookById bookId db of
        None \<Rightarrow> (Rejected BookNotFound, db)
      | Some book \<Rightarrow>
     (case getMemberById memberId db of
        None \<Rightarrow> (Rejected MemberNotFound, db)
      | Some member \<Rightarrow>
          if b_availableCopies book \<le> 0 then (Rejected NoCopiesAvailable, db)
          else
     (case getSettings db of
        None \<Rightarrow> (Rejected TypeError, db)
      | Some settings \<Rightarrow>
          if int (length (getMemberIssues memberId db)) \<ge> s_maxBooksPerMember settings
          then (Rejected (MemberLimitReached (s_maxBooksPerMember settings)), db)
          else
            (let issueDate = now;
                 dueDate = (case dueDateArg of
                              Some d \<Rightarrow> d
                            | None \<Rightarrow> issueDate + s_defaultLoanDuration settings * 24 * 60 * 60 * 1000);
                 issue = \<lparr> i_id = newId,
                           i_bookId = bookId,
                           i_memberId = memberId,
                           i_bookTitle = b_title book,
                           i_memberName = m_name member,
                           i_issueDate = issueDate,
                           i_dueDate = dueDate,
                           i_returnDate = None,
                           i_status = Issued,
                           i_createdAt = now,
                           i_updatedAt = now \<rparr>
             in case store_add i_id issue (issues db) of
                  None \<Rightarrow> (Rejected FailedToIssueBook, db)
                | Some is \<Rightarrow>
                    in_handler (updateBookAvailability bookId (- 1) now (db\<lparr>issues := is\<rparr>)) issue))))"

definition returnBook :: "date \<Rightarrow> string \<Rightarrow> DB \<Rightarrow> Issue promise \<times> DB" where
  "returnBook now issueId db =
     (case store_get i_id issueId (issues db) of
        None \<Rightarrow> (Rejected IssueRecordNotFound, db)
      | Some existingIssue \<Rightarrow>
          if i_status existingIssue = Returned then (Rejected BookAlreadyReturned, db)
          else
            (let returnDate = now;
                 isOverdue = (returnDate > i_dueDate existingIssue);
                 updatedIssue = existingIssue
                   \<lparr> i_returnDate := Some returnDate,
                     i_status := (if isOverdue then Overdue else Returned),
                     i_updatedAt := now \<rparr>;
                 db1 = db\<lparr>issues := store_put i_id updatedIssue (issues db)\<rparr>
             in in_handler (updateBookAvailability (i_bookId existingIssue) 1 now db1) updatedIssue))"

definition getOverdueBooks :: "date \<Rightarrow> DB \<Rightarrow> Issue list" where
  "getOverdueBooks now db =
     filter (\<lambda>issue. i_status issue = Issued \<and> i_dueDate issue < now) (getAllIssues db)"

definition merge_issue :: "Issue \<Rightarrow> IssueUpdates \<Rightarrow> date \<Rightarrow> Issue" where
  "merge_issue existingIssue updates now =
     \<lparr> i_id = (case iu_id updates of None \<Rightarrow> i_id existingIssue | Some v \<Rightarrow> v),
       i_bookId = (case iu_bookId updates of None \<Rightarrow> i_bookId existingIssue | Some v \<Rightarrow> v),
       i_memberId = (case iu_memberId updates of None \<Rightarrow> i_memberId existingIssue | Some v \<Rightarrow> v),
       i_bookTitle = (case iu_bookTitle updates of None \<Rightarrow> i_bookTitle existingIssue | Some v \<Rightarrow> v),
       i_memberName =
         (case iu_memberName updates of None \<Rightarrow> i_memberName existingIssue | Some v \<Rightarrow> v),
       i_issueDate = (case iu_issueDate updates of None \<Rightarrow> i_issueDate existingIssue | Some v \<Rightarrow> v),
       i_dueDate = (case iu_dueDate updates of None \<Rightarrow> i_dueDate existingIssue | Some v \<Rightarrow> v),
       i_returnDate =
         (case iu_returnDate updates of None \<Rightarrow> i_returnDate existingIssue | Some v \<Rightarrow> v),
       i_status = (case iu_status updates of None \<Rightarrow> i_status existingIssue | Some v \<Rightarrow> v),
       i_createdAt = (case iu_createdAt updates of None \<Rightarrow> i_createdAt existingIssue | Some v \<Rightarrow> v),
       i_updatedAt = now \<rparr>"

definition updateIssue :: "string \<Rightarrow> IssueUpdates \<Rightarrow> date \<Rightarrow> DB \<Rightarrow> Issue promise \<times> DB" where
  "updateIssue k updates now db =
     (case store_get i_id k (issues db) of
        None \<Rightarrow> (Rejected IssueNotFound, db)
      | Some existingIssue \<Rightarrow>
          (let updatedIssue = merge_issue existingIssue updates now
           in (Resolved updatedIssue, db\<lparr>issues := store_put i_id updatedIssue (issues db)\<rparr>)))"

definition status_update :: "status \<Rightarrow> IssueUpdates" where
  "status_update s =
     \<lparr> iu_id = None, iu_bookId = None, iu_memberId = None, iu_bookTitle = None,
       iu_memberName = None, iu_issueDate = None, iu_dueDate = None, iu_returnDate = None,
       iu_status = Some s, iu_createdAt = None \<rparr>"

text \<open>The \<^verbatim>\<open>for\<close> loop of \<^verbatim>\<open>updateOverdueStatus\<close> over the issues selected beforehand.\<close>

fun mark_overdue :: "Issue list \<Rightarrow> date \<Rightarrow> DB \<Rightarrow> unit promise \<times> DB" where
  "mark_overdue [] now db = (Resolved (), db)"
| "mark_overdue (issue # rest) now db =
     (case updateIssue (i_id issue) (status_update Overdue) now db of
        (Resolved _, db') \<Rightarrow> mark_overdue rest now db'
      | (Rejected e, db') \<Rightarrow> (Rejected e, db')
      | (Pending, db') \<Rightarrow> (Pending, db'))"

definition updateOverdueStatus :: "date \<Rightarrow> DB \<Rightarrow> unit promise \<times> DB" where
  "updateOverdueStatus now db =
     (let allIssues = getAllIssues db;
          overdueIssues =
            filter (\<lambda>issue. i_status issue = Issued \<and> i_dueDate issue < now) allIssues
      in mark_overdue overdueIssues now db)"

section \<open>Dashboard statistics\<close>

record DashboardStats =
  ds_totalBooks :: nat
  ds_totalMembers :: nat
  ds_booksAvailable :: int
  ds_booksIssued :: nat
  ds_overdueCount :: nat
  ds_totalIssues :: nat
  ds_totalReturns :: nat

definition getDashboardStats :: "date \<Rightarrow> DB \<Rightarrow> DashboardStats" where
  "getDashboardStats now db =
     (let books = getAllBooks db;
          members = getAllMembers db;
          issues = getAllIssues db;
          overdueBooks = getOverdueBooks now db
      in \<lparr> ds_totalBooks = length books,
           ds_totalMembers = length members,
           ds_booksAvailable = foldl (\<lambda>sum book. sum + b_availableCopies book) 0 books,
           ds_booksIssued = length (filter (\<lambda>issue. i_status issue = Issued) issues),
           ds_overdueCount = length overdueBooks,
           ds_totalIssues = length issues,
           ds_totalReturns =
             length (filter (\<lambda>issue. i_status issue = Returned \<or> i_status issue = Overdue) issues) \<rparr>)"

section \<open>Export and import\<close>

definition exportData :: "DB \<Rightarrow> Document" where
  "exportData db =
     \<lparr> doc_books = Some (getAllBooks db),
       doc_members = Some (getAllMembers db),
       doc_issues = Some (getAllIssues db),
       doc_settings = Some (case getSettings db of Some s \<Rightarrow> s | None \<Rightarrow> this_settings db) \<rparr>"

definition clearAllData :: "DB \<Rightarrow> unit promise \<times> DB" where
  "clearAllData db = (Resolved (), db\<lparr>books := [], members := [], issues := []\<rparr>)"

text \<open>
  The loops of \<^verbatim>\<open>importData\<close>. The identifiers drawn for the record at position \<open>k\<close>
  of its array are \<open>bookIds k\<close>, \<open>memberIds k\<close> and \<open>memberCodes k\<close>. A rejected
  \<^verbatim>\<open>addBook\<close> ends the import; a rejected \<^verbatim>\<open>addMember\<close> is caught and logged, and the
  loop goes on.
\<close>

fun import_books :: "(nat \<Rightarrow> string) \<Rightarrow> date \<Rightarrow> nat \<Rightarrow> Book list \<Rightarrow> DB \<Rightarrow> unit promise \<times> DB" where
  "import_books bookIds now k [] db = (Resolved (), db)"
| "import_books bookIds now k (book # rest) db =
     (case addBook (bookIds k) now
             \<lparr> bd_title = b_title book,
               bd_author = b_author book,
               bd_category = b_category book,
               bd_publicationYear = b_publicationYear book,
               bd_isbn = b_isbn book,
               bd_totalCopies = b_totalCopies book,
               bd_availableCopies = b_availableCopies book \<rparr> db of
        (Resolved _, db') \<Rightarrow> import_books bookIds now (Suc k) rest db'
      | (Rejected e, db') \<Rightarrow> (Rejected e, db')
      | (Pending, db') \<Rightarrow> (Pending, db'))"

fun import_members ::
  "(nat \<Rightarrow> string) \<Rightarrow> (nat \<Rightarrow> string) \<Rightarrow> date \<Rightarrow> nat \<Rightarrow> Member list \<Rightarrow> DB \<Rightarrow> unit promise \<times> DB" where
  "import_members memberIds memberCodes now k [] db = (Resolved (), db)"
| "import_members memberIds memberCodes now k (member # rest) db =
     (case addMember (memberIds k) (memberCodes k) now
             \<lparr> md_name = m_name member,
               md_phone = m_phone member,
               md_email = m_email member,
               md_address = m_address member \<rparr> db of
        (Resolved _, db') \<Rightarrow> import_members memberIds memberCodes now (Suc k) rest db'
      | (Rejected e, db') \<Rightarrow> import_members memberIds memberCodes now (Suc k) rest db'
      | (Pending, db') \<Rightarrow> (Pending, db'))"

definition importData ::
  "(nat \<Rightarrow> string) \<Rightarrow> (nat \<Rightarrow> string) \<Rightarrow> (nat \<Rightarrow> string) \<Rightarrow> date \<Rightarrow> Document \<Rightarrow> DB
     \<Rightarrow> unit promise \<times> DB" where
  "importData bookIds memberIds memberCodes now data db =
     await (clearAllData db) (\<lambda>_ db1.
     await (case doc_books data of
              Some bs \<Rightarrow> import_books bookIds now 0 bs db1
            | None \<Rightarrow> (Resolved (), db1)) (\<lambda>_ db2.
     await (case doc_members data of
              Some ms \<Rightarrow> import_members memberIds memberCodes now 0 ms db2
            | None \<Rightarrow> (Resolved (), db2)) (\<lambda>_ db3.
     (case doc_settings data of
        Some s \<Rightarrow> await (saveSettings (all_settings s) now db3) (\<lambda>_ db4. (Resolved (), db4))
      | None \<Rightarrow> (Resolved (), db3)))))"

section \<open>Sequences of operations\<close>

text \<open>A call of \<^verbatim>\<open>issueBook\<close> or \<^verbatim>\<open>returnBook\<close> with what it draws from its environment.\<close>

datatype loan_op =
    IssueBook string date string string "date option"
  | ReturnBook date string

fun apply_op :: "loan_op \<Rightarrow> DB \<Rightarrow> DB" where
  "apply_op (IssueBook newId now bookId memberId dueDateArg) db =
     snd (issueBook newId now bookId memberId dueDateArg db)"
| "apply_op (ReturnBook now issueId) db = snd (returnBook now issueId db)"

fun run_ops :: "loan_op list \<Rightarrow> DB \<Rightarrow> DB" where
  "run_ops [] db = db"
| "run_ops (x # xs) db = run_ops xs (apply_op x db)"

section \<open>Predicates used in the statements\<close>

text \<open>The bound on the copy counters of a book.\<close>

definition copies_ok :: "Book \<Rightarrow> bool" where
  "copies_ok b = (0 \<le> b_availableCopies b \<and> b_availableCopies b \<le> b_totalCopies b)"

text \<open>All copies of a book are available.\<close>

definition full_stock :: "Book \<Rightarrow> bool" where
  "full_stock b = (b_availableCopies b = b_totalCopies b)"

text \<open>
  What \<^verbatim>\<open>updateIssue(id, { status: 'overdue' })\<close> makes of an issue record, and what the
  sweep at the instant \<open>now\<close> is to make of it.
\<close>

definition mark :: "date \<Rightarrow> Issue \<Rightarrow> Issue" where
  "mark now i = i\<lparr>i_status := Overdue, i_updatedAt := now\<rparr>"

definition flip_overdue :: "date \<Rightarrow> Issue \<Rightarrow> Issue" where
  "flip_overdue now i =
     (if i_status i = Issued \<and> i_dueDate i < now then i\<lparr>i_status := Overdue, i_updatedAt := now\<rparr> else i)"

text \<open>
  What \<^verbatim>\<open>importData\<close> makes of a book and of a member of the document: the identifiers
  and the timestamps are new, and all copies are available.
\<close>

definition imported_book :: "string \<Rightarrow> date \<Rightarrow> Book \<Rightarrow> Book" where
  "imported_book newId now b =
     b\<lparr>b_id := newId, b_availableCopies := b_totalCopies b, b_createdAt := now, b_updatedAt := now\<rparr>"

definition imported_member :: "string \<Rightarrow> string \<Rightarrow> date \<Rightarrow> Member \<Rightarrow> Member" where
  "imported_member newId code now m =
     m\<lparr>m_id := newId, m_memberId := code, m_createdAt := now, m_updatedAt := now\<rparr>"

text \<open>
  An issue record with the status \<open>returned\<close> carries a return date; the issue store has
  unique ascending keys and only such records.
\<close>

definition returned_has_date :: "Issue \<Rightarrow> bool" where
  "returned_has_date i = (i_status i = Returned \<longrightarrow> i_returnDate i \<noteq> None)"

definition issues_ok :: "DB \<Rightarrow> bool" where
  "issues_ok db = (store_ok i_id (issues db) \<and> list_all returned_has_date (issues db))"


text \<open>No two members share an email, and no two share a phone.\<close>

definition unique_contacts :: "Member list \<Rightarrow> bool" where
  "unique_contacts ms = (distinct (map m_email ms) \<and> distinct (map m_phone ms))"

section \<open>Example states\<close>

text \<open>
  The default settings of the source, one book with a single copy and one member; a day in
  milliseconds.
\<close>

definition day :: int where
  "day = 24 * 60 * 60 * 1000"

definition ex_settings :: LibrarySettings where
  "ex_settings =
     \<lparr> s_id = ''default'', s_defaultLoanDuration = 14, s_theme = Light,
       s_autoNotifications = False, s_finePerDay = 1, s_maxBooksPerMember = 3,
       s_updatedAt = 0 \<rparr>"

definition ex_book :: Book where
  "ex_book =
     \<lparr> b_id = ''b1'', b_title = ''Dune'', b_author = ''Herbert'', b_category = ''Fiction'',
       b_publicationYear = 1965, b_isbn = None, b_totalCopies = 1, b_availableCopies = 1,
       b_createdAt = 0, b_updatedAt = 0 \<rparr>"

definition ex_member :: Member where
  "ex_member =
     \<lparr> m_id = ''m1'', m_memberId = ''LIB000001001'', m_name = ''Ann'', m_phone = ''555'',
       m_email = ''ann@x.org'', m_address = None, m_createdAt = 0, m_updatedAt = 0 \<rparr>"

definition ex_db :: DB where
  "ex_db =
     \<lparr> books = [ex_book], members = [ex_member], issues = [],
       settingsStore = Some ex_settings, this_settings = ex_settings \<rparr>"

text \<open>The same store with four copies of the book.\<close>

definition ex_book4 :: Book where
  "ex_book4 = ex_book\<lparr>b_totalCopies := 4, b_availableCopies := 4\<rparr>"

definition ex_db4 :: DB where
  "ex_db4 = ex_db\<lparr>books := [ex_book4]\<rparr>"

text \<open>
  Two copies issued to the member on day 0, due on day 14; the first comes back on day 20.
\<close>

definition ex_late_db :: DB where
  "ex_late_db =
     run_ops [IssueBook ''i1'' 0 ''b1'' ''m1'' None, IssueBook ''i2'' 0 ''b1'' ''m1'' None,
              ReturnBook (20 * day) ''i1''] ex_db4"

text \<open>The single copy is issued and the book is then deleted with \<^verbatim>\<open>deleteBook\<close>.\<close>

definition ex_orphan_db :: DB where
  "ex_orphan_db = snd (deleteBook ''b1'' (run_ops [IssueBook ''i1'' 0 ''b1'' ''m1'' None] ex_db))"

text \<open>Three copies issued to the member on day 0: the member is at the default limit of 3.\<close>

definition ex_three_db :: DB where
  "ex_three_db =
     run_ops [IssueBook ''i1'' 0 ''b1'' ''m1'' None, IssueBook ''i2'' 0 ''b1'' ''m1'' None,
              IssueBook ''i3'' 0 ''b1'' ''m1'' None] ex_db4"

definition ex_member2 :: Member where
  "ex_member2 =
     \<lparr> m_id = ''m2'', m_memberId = ''LIB000002002'', m_name = ''Bob'', m_phone = ''777'',
       m_email = ''bob@x.org'', m_address = None, m_createdAt = 0, m_updatedAt = 0 \<rparr>"

definition ex_two_members_db :: DB where
  "ex_two_members_db = ex_db\<lparr>members := [ex_member, ex_member2]\<rparr>"

text \<open>A caller of \<^verbatim>\<open>addBook\<close> who passes five copies in total, none of them available.\<close>

definition ex_book_data :: BookData where
  "ex_book_data =
     \<lparr> bd_title = ''Emma'', bd_author = ''Austen'', bd_category = ''Fiction'',
       bd_publicationYear = 1815, bd_isbn = None, bd_totalCopies = 5, bd_availableCopies = 0 \<rparr>"

text \<open>Identifiers for the records of an import: a prefix and the position as tally marks.\<close>

definition ex_ids :: "string \<Rightarrow> nat \<Rightarrow> string" where
  "ex_ids p k = p @ replicate (Suc k) (CHR ''+'')"

text \<open>The single copy issued on day 0, and the issue record this creates.\<close>

definition ex_issued_db :: DB where
  "ex_issued_db = run_ops [IssueBook ''i1'' 0 ''b1'' ''m1'' None] ex_db"

definition ex_issue :: Issue where
  "ex_issue =
     \<lparr> i_id = ''i1'', i_bookId = ''b1'', i_memberId = ''m1'', i_bookTitle = ''Dune'',
       i_memberName = ''Ann'', i_issueDate = 0, i_dueDate = 14 * day, i_returnDate = None,
       i_status = Issued, i_createdAt = 0, i_updatedAt = 0 \<rparr>"


text \<open>
  A store with two members, a book of which three copies out of four are available, and
  two issue records; and the store of a fresh installation.
\<close>

definition ex_library_db :: DB where
  "ex_library_db = ex_late_db\<lparr>members := [ex_member, ex_member2]\<rparr>"

definition ex_empty_db :: DB where
  "ex_empty_db =
     \<lparr> books = [], members = [], issues = [], settingsStore = Some ex_settings,
       this_settings = ex_settings \<rparr>"

text \<open>Identifier, member, status and return date of every issue record.\<close>

definition issue_summary :: "DB \<Rightarrow> (string \<times> string \<times> status \<times> date option) list" where
  "issue_summary db = map (\<lambda>i. (i_id i, i_memberId i, i_status i, i_returnDate i)) (issues db)"

section \<open>Facts about object stores\<close>

lemma set_store_put: "set (store_put key r xs) = insert r {x \<in> set xs. key x \<noteq> key r}"
  by (auto simp: store_put_def set_insort_key)

lemma store_get_SomeD: "store_get key k xs = Some r \<Longrightarrow> r \<in> set xs \<and> key r = k"
  unfolding store_get_def by (induction xs) (auto split: if_splits)

lemma store_get_None_iff: "store_get key k xs = None \<longleftrightarrow> k \<notin> key ` set xs"
  unfolding store_get_def by (induction xs) auto

lemma find_insort_key_other: "\<not> P r \<Longrightarrow> find P (insort_key key r xs) = find P xs"
  by (induction xs) auto

lemma find_insort_key_new: "P r \<Longrightarrow> find P xs = None \<Longrightarrow> find P (insort_key key r xs) = Some r"
  by (induction xs) (auto split: if_splits)

lemma store_get_insort:
  "store_get key (key r) xs = None \<Longrightarrow>
   store_get key k (insort_key key r xs) = (if k = key r then Some r else store_get key k xs)"
  unfolding store_get_def by (simp add: find_insort_key_other find_insort_key_new)

lemma store_get_filter_other:
  "store_get key k (filter (\<lambda>x. key x \<noteq> j) xs) = (if k = j then None else store_get key k xs)"
  unfolding store_get_def by (induction xs) auto

lemma store_get_put:
  "store_get key k (store_put key r xs) = (if k = key r then Some r else store_get key k xs)"
  unfolding store_put_def by (simp add: store_get_insort store_get_filter_other)

lemma map_insort_key_keys: "map key (insort_key key r xs) = insort (key r) (map key xs)"
  by (induction xs) auto

lemma store_ok_insort:
  "store_ok key xs \<Longrightarrow> store_get key (key r) xs = None \<Longrightarrow> store_ok key (insort_key key r xs)"
  unfolding store_ok_def
  by (simp add: sorted_insort map_insort_key_keys distinct_insort store_get_None_iff)

lemma store_ok_filter: "store_ok key xs \<Longrightarrow> store_ok key (filter P xs)"
  unfolding store_ok_def by (simp add: sorted_filter distinct_map_filter)

lemma store_ok_put: "store_ok key xs \<Longrightarrow> store_ok key (store_put key r xs)"
  unfolding store_put_def
  by (rule store_ok_insort) (simp_all add: store_ok_filter store_get_filter_other)

lemma store_get_member:
  assumes "store_ok key xs" and "x \<in> set xs"
  shows "store_get key (key x) xs = Some x"
  using assms unfolding store_ok_def store_get_def
  by (induction xs) (auto simp: rev_image_eqI)

lemma store_get_map:
  assumes "\<And>x. key (f x) = key x"
  shows "store_get key k (map f xs) = map_option f (store_get key k xs)"
  unfolding store_get_def by (induction xs) (simp_all add: assms)

lemma store_ok_map:
  assumes "\<And>x. key (f x) = key x"
  shows "store_ok key (map f xs) = store_ok key xs"
proof -
  have "map key (map f xs) = map key xs" by (simp add: assms)
  then show ?thesis by (simp add: store_ok_def del: map_map)
qed

lemma store_ext:
  assumes "store_ok key xs" and "store_ok key ys"
    and "\<And>k. store_get key k xs = store_get key k ys"
  shows "xs = ys"
proof -
  have sub: "set as \<subseteq> set bs"
    if "store_ok key as" and "\<And>k. store_get key k as = store_get key k bs" for as bs :: "'a list"
  proof
    fix x assume "x \<in> set as"
    then have "store_get key (key x) as = Some x" using that(1) by (simp add: store_get_member)
    then have "store_get key (key x) bs = Some x" using that(2) by simp
    then show "x \<in> set bs" by (simp add: store_get_SomeD)
  qed
  have sets: "set xs = set ys"
    using sub [of xs ys] sub [of ys xs] assms by auto
  then have "set (map key xs) = set (map key ys)" by simp
  then have keys: "map key xs = map key ys"
    using assms(1,2) unfolding store_ok_def by (metis sorted_distinct_set_unique)
  have "inj_on key (set xs \<union> set ys)"
    using assms(1) sets unfolding store_ok_def by (simp add: distinct_map)
  with keys show ?thesis by (rule map_inj_on)
qed

lemma store_put_replace:
  assumes "store_ok key xs" and "store_get key (key r) xs = Some e"
  shows "store_put key r xs = map (\<lambda>x. if key x = key r then r else x) xs"
proof (rule store_ext [of key])
  show "store_ok key (store_put key r xs)" using assms(1) by (rule store_ok_put)
  show "store_ok key (map (\<lambda>x. if key x = key r then r else x) xs)"
    using assms(1) by (subst store_ok_map) auto
  fix k
  have "store_get key k (map (\<lambda>x. if key x = key r then r else x) xs) =
        map_option (\<lambda>x. if key x = key r then r else x) (store_get key k xs)"
    by (rule store_get_map) simp
  also have "\<dots> = (if k = key r then Some r else store_get key k xs)"
    using assms(2) by (cases "store_get key k xs") (auto dest: store_get_SomeD)
  finally show "store_get key k (store_put key r xs) =
                store_get key k (map (\<lambda>x. if key x = key r then r else x) xs)"
    by (simp add: store_get_put)
qed

section \<open>Facts about the availability counter\<close>

lemma snd_in_handler: "snd (in_handler p v) = snd p"
  by (cases p; cases "fst p") (auto simp: in_handler_def split: promise.splits)

lemma updateBookAvailability_books:
  "books (snd (updateBookAvailability k ch now db)) =
     (case store_get b_id k (books db) of
        None \<Rightarrow> books db
      | Some e \<Rightarrow>
          store_put b_id
            (merge_book e (no_book_updates\<lparr>bu_availableCopies :=
                 Some (max 0 (min (b_totalCopies e) (b_availableCopies e + ch)))\<rparr>) now)
            (books db))"
  by (simp add: updateBookAvailability_def getBookById_def updateBook_def await_def Let_def
      split: option.splits)

lemma updateBookAvailability_books_issues:
  "books (snd (updateBookAvailability k ch now (db\<lparr>issues := is\<rparr>))) =
   books (snd (updateBookAvailability k ch now db))"
  by (simp add: updateBookAvailability_books split: option.split)

lemma updateBookAvailability_issues:
  "issues (snd (updateBookAvailability k ch now db)) = issues db"
  by (simp add: updateBookAvailability_def getBookById_def updateBook_def await_def Let_def
      split: option.split)

lemma merge_availability:
  "b_totalCopies (merge_book e (no_book_updates\<lparr>bu_availableCopies := Some n\<rparr>) now) = b_totalCopies e"
  "b_availableCopies (merge_book e (no_book_updates\<lparr>bu_availableCopies := Some n\<rparr>) now) = n"
  "b_id (merge_book e u now) = b_id e"
  by (simp_all add: merge_book_def no_book_updates_def)

lemma merge_book_availability:
  "merge_book e (no_book_updates\<lparr>bu_availableCopies := Some n\<rparr>) now =
     e\<lparr>b_availableCopies := n, b_updatedAt := now\<rparr>"
  by (simp add: merge_book_def no_book_updates_def)

lemma updateBookAvailability_found:
  assumes "getBookById k db = Some book"
  shows "updateBookAvailability k ch now db =
           (Resolved (),
            db\<lparr>books := store_put b_id
               (book\<lparr>b_availableCopies :=
                        max 0 (min (b_totalCopies book) (b_availableCopies book + ch)),
                      b_updatedAt := now\<rparr>) (books db)\<rparr>)"
  using assms
  by (simp add: updateBookAvailability_def updateBook_def getBookById_def await_def Let_def
      merge_book_availability)

lemma updateBookAvailability_missing:
  "getBookById k db = None \<Longrightarrow> updateBookAvailability k ch now db = (Rejected BookNotFound, db)"
  by (simp add: updateBookAvailability_def)

lemma updateBookAvailability_copies_ok:
  assumes "\<forall>b \<in> set (books db). copies_ok b"
  shows "\<forall>b \<in> set (books (snd (updateBookAvailability k ch now db))). copies_ok b"
proof (cases "store_get b_id k (books db)")
  case None
  then show ?thesis using assms by (simp add: updateBookAvailability_books)
next
  case (Some e)
  then have "e \<in> set (books db)" by (simp add: store_get_SomeD)
  then have "copies_ok e" using assms by blast
  then have "copies_ok (merge_book e (no_book_updates\<lparr>bu_availableCopies :=
                 Some (max 0 (min (b_totalCopies e) (b_availableCopies e + ch)))\<rparr>) now)"
    by (simp add: copies_ok_def merge_availability)
  then show ?thesis using assms Some
    by (auto simp: updateBookAvailability_books set_store_put)
qed

section \<open>Facts about \<^verbatim>\<open>issueBook\<close> and \<^verbatim>\<open>returnBook\<close>\<close>

lemma issueBook_no_book:
  "getBookById bookId db = None \<Longrightarrow>
   issueBook newId now bookId memberId due db = (Rejected BookNotFound, db)"
  by (simp add: issueBook_def)

lemma issueBook_no_member:
  "getBookById bookId db = Some book \<Longrightarrow> getMemberById memberId db = None \<Longrightarrow>
   issueBook newId now bookId memberId due db = (Rejected MemberNotFound, db)"
  by (simp add: issueBook_def)

lemma issueBook_no_copies:
  "getBookById bookId db = Some book \<Longrightarrow> getMemberById memberId db = Some member \<Longrightarrow>
   b_availableCopies book \<le> 0 \<Longrightarrow>
   issueBook newId now bookId memberId due db = (Rejected NoCopiesAvailable, db)"
  by (simp add: issueBook_def)

lemma issueBook_no_settings:
  "getBookById bookId db = Some book \<Longrightarrow> getMemberById memberId db = Some member \<Longrightarrow>
   0 < b_availableCopies book \<Longrightarrow> getSettings db = None \<Longrightarrow>
   issueBook newId now bookId memberId due db = (Rejected TypeError, db)"
  by (simp add: issueBook_def)

lemma issueBook_limit:
  "getBookById bookId db = Some book \<Longrightarrow> getMemberById memberId db = Some member \<Longrightarrow>
   0 < b_availableCopies book \<Longrightarrow> getSettings db = Some settings \<Longrightarrow>
   s_maxBooksPerMember settings \<le> int (length (getMemberIssues memberId db)) \<Longrightarrow>
   issueBook newId now bookId memberId due db =
     (Rejected (MemberLimitReached (s_maxBooksPerMember settings)), db)"
  by (simp add: issueBook_def)

lemma issueBook_id_in_use:
  "getBookById bookId db = Some book \<Longrightarrow> getMemberById memberId db = Some member \<Longrightarrow>
   0 < b_availableCopies book \<Longrightarrow> getSettings db = Some settings \<Longrightarrow>
   int (length (getMemberIssues memberId db)) < s_maxBooksPerMember settings \<Longrightarrow>
   store_get i_id newId (issues db) \<noteq> None \<Longrightarrow>
   issueBook newId now bookId memberId due db = (Rejected FailedToIssueBook, db)"
  by (auto simp add: issueBook_def store_add_def Let_def)

lemma issueBook_resolves:
  assumes "getBookById bookId db = Some book" and "getMemberById memberId db = Some member"
    and "0 < b_availableCopies book" and "getSettings db = Some settings"
    and "int (length (getMemberIssues memberId db)) < s_maxBooksPerMember settings"
    and "store_get i_id newId (issues db) = None"
    and "issue = \<lparr> i_id = newId, i_bookId = bookId, i_memberId = memberId,
                     i_bookTitle = b_title book, i_memberName = m_name member,
                     i_issueDate = now,
                     i_dueDate = (case due of Some d \<Rightarrow> d
                                  | None \<Rightarrow> now + s_defaultLoanDuration settings * day),
                     i_returnDate = None, i_status = Issued, i_createdAt = now,
                     i_updatedAt = now \<rparr>"
  shows "issueBook newId now bookId memberId due db =
           (Resolved issue,
            db\<lparr>issues := insort_key i_id issue (issues db),
               books := store_put b_id
                 (book\<lparr>b_availableCopies :=
                          max 0 (min (b_totalCopies book) (b_availableCopies book - 1)),
                        b_updatedAt := now\<rparr>) (books db)\<rparr>)"
proof -
  let ?db1 = "db\<lparr>issues := insort_key i_id issue (issues db)\<rparr>"
  have "getBookById bookId ?db1 = Some book"
    using assms(1) by (simp add: getBookById_def)
  then have avail: "updateBookAvailability bookId (- 1) now ?db1 =
      (Resolved (),
       ?db1\<lparr>books := store_put b_id
          (book\<lparr>b_availableCopies := max 0 (min (b_totalCopies book) (b_availableCopies book + - 1)),
                b_updatedAt := now\<rparr>) (books ?db1)\<rparr>)"
    by (rule updateBookAvailability_found)
  have due: "(case due of Some d \<Rightarrow> d
              | None \<Rightarrow> now + s_defaultLoanDuration settings * 24 * 60 * 60 * 1000) =
             (case due of Some d \<Rightarrow> d | None \<Rightarrow> now + s_defaultLoanDuration settings * day)"
    by (simp add: day_def split: option.split)
  have add: "store_add i_id issue (issues db) = Some (insort_key i_id issue (issues db))"
    using assms(6,7) by (simp add: store_add_def)
  show ?thesis
    unfolding issueBook_def using assms(1-5) add avail
    by (simp add: Let_def due in_handler_def assms(7) [symmetric])
qed

lemma issueBook_state:
  "snd (issueBook newId now bookId memberId due db) = db \<or>
   (\<exists>issue bs settings. i_id issue = newId \<and> i_status issue = Issued \<and>
      i_memberId issue = memberId \<and>
      store_get i_id newId (issues db) = None \<and>
      getSettings db = Some settings \<and>
      int (length (getMemberIssues memberId db)) < s_maxBooksPerMember settings \<and>
      snd (issueBook newId now bookId memberId due db) =
        db\<lparr>issues := insort_key i_id issue (issues db), books := bs\<rparr>)"
proof (cases "getBookById bookId db")
  case None
  then show ?thesis by (simp add: issueBook_no_book)
next
  case book: (Some book)
  show ?thesis
  proof (cases "getMemberById memberId db")
    case None
    with book show ?thesis by (simp add: issueBook_no_member)
  next
    case member: (Some member)
    show ?thesis
    proof (cases "b_availableCopies book \<le> 0")
      case True
      with book member show ?thesis by (simp add: issueBook_no_copies)
    next
      case False
      then have copies: "0 < b_availableCopies book" by simp
      show ?thesis
      proof (cases "getSettings db")
        case None
        with book member copies show ?thesis by (simp add: issueBook_no_settings)
      next
        case settings: (Some settings)
        show ?thesis
        proof (cases "s_maxBooksPerMember settings \<le> int (length (getMemberIssues memberId db))")
          case True
          with book member copies settings show ?thesis by (simp add: issueBook_limit)
        next
          case False
          then have room: "int (length (getMemberIssues memberId db)) < s_maxBooksPerMember settings"
            by simp
          show ?thesis
          proof (cases "store_get i_id newId (issues db)")
            case (Some other)
            then have "store_get i_id newId (issues db) \<noteq> None" by simp
            with book member copies settings room show ?thesis
              by (simp add: issueBook_id_in_use)
          next
            case None
            define issue where "issue =
               \<lparr> i_id = newId, i_bookId = bookId, i_memberId = memberId,
                 i_bookTitle = b_title book, i_memberName = m_name member,
                 i_issueDate = now,
                 i_dueDate = (case due of Some d \<Rightarrow> d
                              | None \<Rightarrow> now + s_defaultLoanDuration settings * day),
                 i_returnDate = None, i_status = Issued, i_createdAt = now,
                 i_updatedAt = now \<rparr>"
            have fields: "i_id issue = newId" "i_status issue = Issued" "i_memberId issue = memberId"
              by (simp_all add: issue_def)
            note run = issueBook_resolves [OF book member copies settings room None issue_def]
            have "\<exists>bs. snd (issueBook newId now bookId memberId due db) =
                    db\<lparr>issues := insort_key i_id issue (issues db), books := bs\<rparr>"
              unfolding run by (rule exI) simp
            with fields None settings room show ?thesis by blast
          qed
        qed
      qed
    qed
  qed
qed

lemma returnBook_state:
  "snd (returnBook now issueId db) = db \<or>
   (\<exists>issue bs. i_returnDate issue \<noteq> None \<and>
      snd (returnBook now issueId db) = db\<lparr>issues := store_put i_id issue (issues db), books := bs\<rparr>)"
proof (cases "store_get i_id issueId (issues db)")
  case None
  then show ?thesis by (simp add: returnBook_def)
next
  case (Some existing)
  show ?thesis
  proof (cases "i_status existing = Returned")
    case True
    with Some show ?thesis by (simp add: returnBook_def)
  next
    case False
    let ?issue = "existing\<lparr>i_returnDate := Some now,
                    i_status := (if i_dueDate existing < now then Overdue else Returned),
                    i_updatedAt := now\<rparr>"
    let ?db1 = "db\<lparr>issues := store_put i_id ?issue (issues db)\<rparr>"
    have run: "snd (returnBook now issueId db) =
                 snd (updateBookAvailability (i_bookId existing) 1 now ?db1)"
      using Some False by (simp add: returnBook_def Let_def snd_in_handler)
    have "\<exists>bs. snd (updateBookAvailability (i_bookId existing) 1 now ?db1) = ?db1\<lparr>books := bs\<rparr>"
    proof (cases "getBookById (i_bookId existing) ?db1")
      case None
      then have "snd (updateBookAvailability (i_bookId existing) 1 now ?db1) = ?db1\<lparr>books := books ?db1\<rparr>"
        by (simp add: updateBookAvailability_missing)
      then show ?thesis by (rule exI)
    next
      case (Some book)
      show ?thesis unfolding updateBookAvailability_found [OF Some] by (rule exI) simp
    qed
    then obtain bs where "snd (returnBook now issueId db) =
        db\<lparr>issues := store_put i_id ?issue (issues db), books := bs\<rparr>"
      unfolding run by auto
    moreover have "i_returnDate ?issue \<noteq> None" by simp
    ultimately show ?thesis by blast
  qed
qed

lemma issueBook_books:
  "books (snd (issueBook newId now bookId memberId due db)) = books db \<or>
   books (snd (issueBook newId now bookId memberId due db)) =
     books (snd (updateBookAvailability bookId (- 1) now db))"
  unfolding issueBook_def
  by (simp add: Let_def snd_in_handler updateBookAvailability_books_issues split: option.split)

lemma returnBook_books:
  "books (snd (returnBook now issueId db)) = books db \<or>
   (\<exists>k. books (snd (returnBook now issueId db)) = books (snd (updateBookAvailability k 1 now db)))"
  unfolding returnBook_def
  by (auto simp add: Let_def snd_in_handler updateBookAvailability_books_issues split: option.split)

lemma apply_op_copies_ok:
  assumes "\<forall>b \<in> set (books db). copies_ok b"
  shows "\<forall>b \<in> set (books (apply_op x db)). copies_ok b"
proof (cases x)
  case (IssueBook newId now bookId memberId due)
  show ?thesis
    using issueBook_books [of newId now bookId memberId due db] assms
      updateBookAvailability_copies_ok [OF assms, of bookId "- 1" now]
    unfolding IssueBook apply_op.simps by metis
next
  case (ReturnBook now issueId)
  show ?thesis
    using returnBook_books [of now issueId db] assms updateBookAvailability_copies_ok [OF assms]
    unfolding ReturnBook apply_op.simps by metis
qed

lemma run_ops_copies_ok:
  "\<forall>b \<in> set (books db). copies_ok b \<Longrightarrow> \<forall>b \<in> set (books (run_ops ops db)). copies_ok b"
proof (induction ops arbitrary: db)
  case Nil
  then show ?case by simp
next
  case (Cons x xs)
  from Cons.prems have "\<forall>b \<in> set (books (apply_op x db)). copies_ok b"
    by (rule apply_op_copies_ok)
  then show ?case using Cons.IH by simp
qed



text \<open>
  The outcome of \<^verbatim>\<open>returnBook\<close> for an issue that is in the store with a status other than
  \<open>returned\<close>, and whose book is in the store with counters that are not negative: it
  resolves, the stored issue gets the return date \<open>now\<close> and the status \<open>returned\<close> when
  \<open>now \<le> dueDate\<close> and \<open>overdue\<close> otherwise, and the book gets one more available copy,
  capped at its total. Nothing else in the state changes.
\<close>

lemma returnBook_success:
  assumes "store_get i_id issueId (issues db) = Some issue"
    and "i_status issue \<noteq> Returned"
    and "getBookById (i_bookId issue) db = Some book"
    and "0 \<le> b_availableCopies book"
    and "0 \<le> b_totalCopies book"
  shows "returnBook now issueId db =
           (Resolved (issue\<lparr>i_returnDate := Some now,
                            i_status := (if now \<le> i_dueDate issue then Returned else Overdue),
                            i_updatedAt := now\<rparr>),
            db\<lparr>issues := store_put i_id
                   (issue\<lparr>i_returnDate := Some now,
                          i_status := (if now \<le> i_dueDate issue then Returned else Overdue),
                          i_updatedAt := now\<rparr>) (issues db),
               books := store_put b_id
                   (book\<lparr>b_availableCopies := min (b_totalCopies book) (b_availableCopies book + 1),
                         b_updatedAt := now\<rparr>) (books db)\<rparr>) \<and>
         store_get i_id issueId (issues (snd (returnBook now issueId db))) =
           Some (issue\<lparr>i_returnDate := Some now,
                       i_status := (if now \<le> i_dueDate issue then Returned else Overdue),
                       i_updatedAt := now\<rparr>) \<and>
         getBookById (i_bookId issue) (snd (returnBook now issueId db)) =
           Some (book\<lparr>b_availableCopies := min (b_totalCopies book) (b_availableCopies book + 1),
                      b_updatedAt := now\<rparr>)"
proof -
  let ?issue' = "issue\<lparr>i_returnDate := Some now,
                        i_status := (if now \<le> i_dueDate issue then Returned else Overdue),
                        i_updatedAt := now\<rparr>"
  let ?db1 = "db\<lparr>issues := store_put i_id ?issue' (issues db)\<rparr>"
  let ?book' = "book\<lparr>b_availableCopies := min (b_totalCopies book) (b_availableCopies book + 1),
                      b_updatedAt := now\<rparr>"
  have key_i: "i_id issue = issueId" and key_b: "b_id book = i_bookId issue"
    using assms(1,3) by (auto simp: getBookById_def dest: store_get_SomeD)
  have clamp: "max 0 (min (b_totalCopies book) (b_availableCopies book + 1)) =
                 min (b_totalCopies book) (b_availableCopies book + 1)"
    using assms(4,5) by simp
  have "getBookById (i_bookId issue) ?db1 = Some book"
    using assms(3) by (simp add: getBookById_def)
  then have avail: "updateBookAvailability (i_bookId issue) 1 now ?db1 =
                 (Resolved (), ?db1\<lparr>books := store_put b_id ?book' (books ?db1)\<rparr>)"
    using updateBookAvailability_found [of "i_bookId issue" ?db1 book 1 now] clamp by simp
  have status: "(if i_dueDate issue < now then Overdue else Returned) =
                (if now \<le> i_dueDate issue then Returned else Overdue)"
    by auto
  have run: "returnBook now issueId db = (Resolved ?issue', ?db1\<lparr>books := store_put b_id ?book' (books ?db1)\<rparr>)"
    unfolding returnBook_def using assms(1,2) avail status
    by (simp add: Let_def in_handler_def)
  show ?thesis
    unfolding run using key_i key_b
    by (simp add: store_get_put getBookById_def)
qed

section \<open>Facts about the overdue sweep\<close>

lemma merge_issue_overdue: "merge_issue e (status_update Overdue) now = mark now e"
  by (simp add: merge_issue_def status_update_def mark_def)

lemma mark_simps: "i_id (mark now i) = i_id i" "mark now (mark now i) = mark now i"
  by (simp_all add: mark_def)

lemma updateIssue_overdue:
  assumes "store_ok i_id (issues db)" and "t \<in> set (issues db)"
  shows "updateIssue (i_id t) (status_update Overdue) now db =
           (Resolved (mark now t),
            db\<lparr>issues := map (\<lambda>x. if i_id x = i_id t then mark now x else x) (issues db)\<rparr>)"
proof -
  have get: "store_get i_id (i_id t) (issues db) = Some t"
    using assms by (rule store_get_member)
  then have "store_get i_id (i_id (mark now t)) (issues db) = Some t"
    by (simp add: mark_simps)
  with assms(1) have "store_put i_id (mark now t) (issues db) =
      map (\<lambda>x. if i_id x = i_id (mark now t) then mark now t else x) (issues db)"
    by (rule store_put_replace)
  also have "\<dots> = map (\<lambda>x. if i_id x = i_id t then mark now x else x) (issues db)"
  proof (rule map_cong [OF refl])
    fix x assume "x \<in> set (issues db)"
    then have "store_get i_id (i_id x) (issues db) = Some x"
      using assms(1) by (simp add: store_get_member)
    with get have "i_id x = i_id t \<Longrightarrow> x = t" by simp
    then show "(if i_id x = i_id (mark now t) then mark now t else x) =
               (if i_id x = i_id t then mark now x else x)"
      by (auto simp: mark_simps)
  qed
  finally show ?thesis
    using get by (simp add: updateIssue_def Let_def merge_issue_overdue)
qed

lemma mark_overdue_result:
  assumes "store_ok i_id (issues db)" and "set todo \<subseteq> set (issues db)"
    and "distinct (map i_id todo)"
  shows "mark_overdue todo now db =
           (Resolved (),
            db\<lparr>issues := map (\<lambda>x. if i_id x \<in> i_id ` set todo then mark now x else x) (issues db)\<rparr>)"
  using assms
proof (induction todo arbitrary: db)
  case Nil
  then show ?case by simp
next
  case (Cons t rest)
  let ?h = "\<lambda>x. if i_id x = i_id t then mark now x else x"
  let ?db1 = "db\<lparr>issues := map ?h (issues db)\<rparr>"
  have t_in: "t \<in> set (issues db)" using Cons.prems(2) by simp
  have step: "updateIssue (i_id t) (status_update Overdue) now db = (Resolved (mark now t), ?db1)"
    using Cons.prems(1) t_in by (rule updateIssue_overdue)
  have key_h: "\<And>x. i_id (?h x) = i_id x" by (simp add: mark_simps)
  have ok1: "store_ok i_id (issues ?db1)"
    using Cons.prems(1) store_ok_map [of i_id ?h "issues db"] key_h by simp
  have sub1: "set rest \<subseteq> set (issues ?db1)"
  proof
    fix r assume r: "r \<in> set rest"
    have "i_id t \<notin> i_id ` set rest" using Cons.prems(3) by simp
    with r have neq: "i_id r \<noteq> i_id t" by (auto simp: image_iff)
    have r_in: "r \<in> set (issues db)" using r Cons.prems(2) by auto
    from neq have "r = ?h r" by simp
    then have "r \<in> ?h ` set (issues db)" using r_in by (rule image_eqI)
    then show "r \<in> set (issues ?db1)" by simp
  qed
  have dist1: "distinct (map i_id rest)" using Cons.prems(3) by simp
  have "mark_overdue rest now ?db1 =
          (Resolved (),
           ?db1\<lparr>issues := map (\<lambda>x. if i_id x \<in> i_id ` set rest then mark now x else x) (issues ?db1)\<rparr>)"
    using ok1 sub1 dist1 by (rule Cons.IH)
  moreover have "map (\<lambda>x. if i_id x \<in> i_id ` set rest then mark now x else x) (map ?h (issues db)) =
                 map (\<lambda>x. if i_id x \<in> i_id ` set (t # rest) then mark now x else x) (issues db)"
    by (auto simp: mark_simps)
  ultimately show ?case using step by simp
qed

lemma updateOverdueStatus_result:
  assumes "store_ok i_id (issues db)"
  shows "updateOverdueStatus now db =
           (Resolved (), db\<lparr>issues := map (flip_overdue now) (issues db)\<rparr>)"
proof -
  let ?P = "\<lambda>issue. i_status issue = Issued \<and> i_dueDate issue < now"
  let ?todo = "filter ?P (issues db)"
  have sub: "set ?todo \<subseteq> set (issues db)" by auto
  have dist: "distinct (map i_id ?todo)"
    using assms unfolding store_ok_def by (simp add: distinct_map_filter)
  have run: "mark_overdue ?todo now db =
          (Resolved (),
           db\<lparr>issues := map (\<lambda>x. if i_id x \<in> i_id ` set ?todo then mark now x else x) (issues db)\<rparr>)"
    using assms sub dist by (rule mark_overdue_result)
  have "map (\<lambda>x. if i_id x \<in> i_id ` set ?todo then mark now x else x) (issues db) =
        map (flip_overdue now) (issues db)"
  proof (rule map_cong [OF refl])
    fix x assume x: "x \<in> set (issues db)"
    have get_x: "store_get i_id (i_id x) (issues db) = Some x"
      using assms x by (rule store_get_member)
    have iff: "i_id x \<in> i_id ` set ?todo \<longleftrightarrow> ?P x"
    proof
      assume "i_id x \<in> i_id ` set ?todo"
      then obtain y where y: "y \<in> set ?todo" "i_id x = i_id y" by (rule imageE)
      from y(1) have y_in: "y \<in> set (issues db)" and Py: "?P y" by simp_all
      have "store_get i_id (i_id y) (issues db) = Some y"
        using assms y_in by (rule store_get_member)
      with get_x have "Some x = Some y" unfolding y(2) by (rule trans [OF sym])
      then have "x = y" by simp
      with Py show "?P x" by simp
    next
      assume "?P x"
      with x have "x \<in> set ?todo" by simp
      then show "i_id x \<in> i_id ` set ?todo" by (rule imageI)
    qed
    show "(if i_id x \<in> i_id ` set ?todo then mark now x else x) = flip_overdue now x"
      unfolding iff by (simp add: flip_overdue_def mark_def)
  qed
  with run show ?thesis by (simp add: updateOverdueStatus_def getAllIssues_def Let_def)
qed

lemma flip_overdue_done:
  "filter (\<lambda>issue. i_status issue = Issued \<and> i_dueDate issue < now) (map (flip_overdue now) xs) = []"
  by (induction xs) (simp_all add: flip_overdue_def)

section \<open>Invariants of the issue store\<close>

text \<open>
  \<^verbatim>\<open>issueBook\<close>, \<^verbatim>\<open>returnBook\<close> and the sweep keep the keys of the issue store unique
  and ascending, and they write the status \<open>returned\<close> only together with a return date.
  So in every state they reach from an empty issue store, an issue without a return date
  does not have the status \<open>returned\<close>.
\<close>

lemma issues_ok_insort:
  assumes "issues_ok db" and "store_get i_id (i_id issue) (issues db) = None"
    and "returned_has_date issue"
  shows "issues_ok (db'\<lparr>issues := insort_key i_id issue (issues db)\<rparr>)"
  using assms by (simp add: issues_ok_def store_ok_insort list_all_iff set_insort_key)

lemma issues_ok_put:
  assumes "issues_ok db" and "returned_has_date issue"
  shows "issues_ok (db'\<lparr>issues := store_put i_id issue (issues db)\<rparr>)"
  using assms by (simp add: issues_ok_def store_ok_put list_all_iff set_store_put)

lemma issues_ok_apply_op:
  assumes "issues_ok db"
  shows "issues_ok (apply_op x db)"
proof (cases x)
  case (IssueBook newId now bookId memberId due)
  let ?db' = "snd (issueBook newId now bookId memberId due db)"
  from issueBook_state [of newId now bookId memberId due db] show ?thesis
  proof
    assume "?db' = db"
    then show ?thesis using assms IssueBook by simp
  next
    assume "\<exists>issue bs settings. i_id issue = newId \<and> i_status issue = Issued \<and>
      i_memberId issue = memberId \<and>
      store_get i_id newId (issues db) = None \<and>
      getSettings db = Some settings \<and>
      int (length (getMemberIssues memberId db)) < s_maxBooksPerMember settings \<and>
      ?db' = db\<lparr>issues := insort_key i_id issue (issues db), books := bs\<rparr>"
    then obtain issue bs where i: "i_id issue = newId" "i_status issue = Issued"
      "store_get i_id newId (issues db) = None"
      "?db' = db\<lparr>issues := insort_key i_id issue (issues db), books := bs\<rparr>"
      by blast
    have "issues_ok (db\<lparr>issues := insort_key i_id issue (issues db)\<rparr>)"
      using assms i(1,2,3) by (intro issues_ok_insort) (simp_all add: returned_has_date_def)
    then have "issues_ok ?db'" unfolding i(4) by (simp add: issues_ok_def)
    then show ?thesis using IssueBook by simp
  qed
next
  case (ReturnBook now issueId)
  let ?db' = "snd (returnBook now issueId db)"
  from returnBook_state [of now issueId db] show ?thesis
  proof
    assume "?db' = db"
    then show ?thesis using assms ReturnBook by simp
  next
    assume "\<exists>issue bs. i_returnDate issue \<noteq> None \<and>
      ?db' = db\<lparr>issues := store_put i_id issue (issues db), books := bs\<rparr>"
    then obtain issue bs where i: "i_returnDate issue \<noteq> None"
      "?db' = db\<lparr>issues := store_put i_id issue (issues db), books := bs\<rparr>" by blast
    have "issues_ok (db\<lparr>issues := store_put i_id issue (issues db)\<rparr>)"
      using assms i(1) by (intro issues_ok_put) (simp_all add: returned_has_date_def)
    then have "issues_ok ?db'" unfolding i(2) by (simp add: issues_ok_def)
    then show ?thesis using ReturnBook by simp
  qed
qed

lemma issues_ok_run_ops: "issues_ok db \<Longrightarrow> issues_ok (run_ops ops db)"
proof (induction ops arbitrary: db)
  case Nil
  then show ?case by simp
next
  case (Cons x xs)
  from Cons.prems have "issues_ok (apply_op x db)" by (rule issues_ok_apply_op)
  then show ?case using Cons.IH by simp
qed

lemma issues_ok_updateOverdueStatus:
  assumes "issues_ok db"
  shows "issues_ok (snd (updateOverdueStatus now db))"
proof -
  have ok: "store_ok i_id (issues db)" using assms by (simp add: issues_ok_def)
  have key: "\<And>x. i_id (flip_overdue now x) = i_id x" by (simp add: flip_overdue_def)
  have "store_ok i_id (map (flip_overdue now) (issues db))"
    using ok store_ok_map [of i_id "flip_overdue now" "issues db"] key by simp
  moreover have "list_all returned_has_date (map (flip_overdue now) (issues db))"
    using assms by (auto simp: issues_ok_def list_all_iff returned_has_date_def flip_overdue_def)
  ultimately show ?thesis
    by (simp add: updateOverdueStatus_result [OF ok] issues_ok_def)
qed

lemma issues_ok_empty: "issues db = [] \<Longrightarrow> issues_ok db"
  by (simp add: issues_ok_def store_ok_def)

lemma not_returned_without_date:
  assumes "issues_ok db" and "store_get i_id issueId (issues db) = Some issue"
    and "i_returnDate issue = None"
  shows "i_status issue \<noteq> Returned"
proof -
  have "issue \<in> set (issues db)" using assms(2) by (simp add: store_get_SomeD)
  then have "returned_has_date issue" using assms(1) by (simp add: issues_ok_def list_all_iff)
  then show ?thesis using assms(3) by (auto simp: returned_has_date_def)
qed

section \<open>Facts about \<^verbatim>\<open>addBook\<close> and the import\<close>

lemma addBook_fresh:
  assumes "store_get b_id newId (books db) = None"
  shows "\<exists>book db'. addBook newId now bookData db = (Resolved book, db') \<and>
           getBookById newId db' = Some book \<and>
           b_totalCopies book = bd_totalCopies bookData \<and>
           b_availableCopies book = b_totalCopies book"
  using assms
  by (simp add: addBook_def store_add_def getBookById_def store_get_insort Let_def)

lemma addBook_taken:
  "store_get b_id newId (books db) \<noteq> None \<Longrightarrow>
   addBook newId now bookData db = (Rejected FailedToAddBook, db)"
  by (auto simp add: addBook_def store_add_def Let_def)

lemma addBook_full_stock:
  assumes "\<forall>b \<in> set (books db). full_stock b"
  shows "\<forall>b \<in> set (books (snd (addBook newId now bookData db))). full_stock b"
  using assms
  by (auto simp add: addBook_def store_add_def Let_def set_insort_key full_stock_def)

lemma addBook_cases:
  "(\<exists>book db'. addBook newId now bookData db = (Resolved book, db')) \<or>
   addBook newId now bookData db = (Rejected FailedToAddBook, db)"
  by (auto simp add: addBook_def store_add_def Let_def)

lemma import_books_full_stock:
  "\<forall>b \<in> set (books db). full_stock b \<Longrightarrow>
   \<forall>b \<in> set (books (snd (import_books bookIds now k bs db))). full_stock b"
proof (induction bs arbitrary: k db)
  case Nil
  then show ?case by simp
next
  case (Cons x xs)
  let ?bd = "\<lparr> bd_title = b_title x, bd_author = b_author x, bd_category = b_category x,
               bd_publicationYear = b_publicationYear x, bd_isbn = b_isbn x,
               bd_totalCopies = b_totalCopies x, bd_availableCopies = b_availableCopies x \<rparr>"
  from Cons.prems have step: "\<forall>b \<in> set (books (snd (addBook (bookIds k) now ?bd db))). full_stock b"
    by (rule addBook_full_stock)
  from addBook_cases [of "bookIds k" now ?bd db] show ?case
  proof
    assume "\<exists>book db'. addBook (bookIds k) now ?bd db = (Resolved book, db')"
    then obtain book db' where r: "addBook (bookIds k) now ?bd db = (Resolved book, db')" by blast
    with step have "\<forall>b \<in> set (books db'). full_stock b" by simp
    then have "\<forall>b \<in> set (books (snd (import_books bookIds now (Suc k) xs db'))). full_stock b"
      by (rule Cons.IH)
    with r show ?thesis by simp
  next
    assume "addBook (bookIds k) now ?bd db = (Rejected FailedToAddBook, db)"
    with Cons.prems show ?thesis by simp
  qed
qed

lemma addMember_books: "books (snd (addMember newId code now md db)) = books db"
  by (simp add: addMember_def Let_def split: option.split)

lemma import_members_books:
  "books (snd (import_members memberIds memberCodes now k ms db)) = books db"
proof (induction ms arbitrary: k db)
  case Nil
  then show ?case by simp
next
  case (Cons x xs)
  let ?r = "addMember (memberIds k) (memberCodes k) now
              \<lparr> md_name = m_name x, md_phone = m_phone x, md_email = m_email x,
                md_address = m_address x \<rparr> db"
  have b: "books (snd ?r) = books db" by (rule addMember_books)
  show ?case
  proof (cases ?r)
    case (Pair p db')
    with b have "books db' = books db" by simp
    with Pair Cons.IH [of "Suc k" db'] show ?thesis
      by (cases p) simp_all
  qed
qed

lemma importData_full_stock:
  "\<forall>b \<in> set (books (snd (importData bookIds memberIds memberCodes now data db))). full_stock b"
proof -
  let ?db1 = "db\<lparr>books := [], members := [], issues := []\<rparr>"
  let ?r2 = "case doc_books data of Some bs \<Rightarrow> import_books bookIds now 0 bs ?db1
             | None \<Rightarrow> (Resolved (), ?db1)"
  have b2: "\<forall>b \<in> set (books (snd ?r2)). full_stock b"
    using import_books_full_stock [of ?db1 bookIds now 0]
    by (cases "doc_books data") simp_all
  obtain p2 db2 where r2: "?r2 = (p2, db2)" by (cases ?r2)
  with b2 have b2': "\<forall>b \<in> set (books db2). full_stock b" by simp
  let ?r3 = "case doc_members data of Some ms \<Rightarrow> import_members memberIds memberCodes now 0 ms db2
             | None \<Rightarrow> (Resolved (), db2)"
  have b3: "books (snd ?r3) = books db2"
    by (cases "doc_members data") (simp_all add: import_members_books)
  obtain p3 db3 where r3: "?r3 = (p3, db3)" by (cases ?r3)
  with b3 have b3': "books db3 = books db2" by simp
  show ?thesis
    unfolding importData_def clearAllData_def
    using r2 r3 b2' b3'
    apply (simp add: await_def)
    apply (cases p2; simp)
    apply (cases p3; simp)
    apply (cases "doc_settings data"; simp add: saveSettings_def Let_def await_def)
    done
qed

lemma addBook_import_step:
  assumes "store_get b_id newId (books db) = None"
  shows "addBook newId now
           \<lparr> bd_title = b_title b, bd_author = b_author b, bd_category = b_category b,
             bd_publicationYear = b_publicationYear b, bd_isbn = b_isbn b,
             bd_totalCopies = b_totalCopies b, bd_availableCopies = b_availableCopies b \<rparr> db =
         (Resolved (imported_book newId now b),
          db\<lparr>books := insort_key b_id (imported_book newId now b) (books db)\<rparr>)"
proof -
  have "\<lparr> b_id = newId, b_title = b_title b, b_author = b_author b, b_category = b_category b,
          b_publicationYear = b_publicationYear b, b_isbn = b_isbn b,
          b_totalCopies = b_totalCopies b, b_availableCopies = b_totalCopies b,
          b_createdAt = now, b_updatedAt = now \<rparr> = imported_book newId now b"
    by (simp add: imported_book_def)
  moreover have "b_id (imported_book newId now b) = newId"
    by (simp add: imported_book_def)
  ultimately show ?thesis
    using assms by (simp add: addBook_def store_add_def Let_def)
qed

lemma import_books_result:
  assumes "\<forall>j < length bs. store_get b_id (bookIds (k + j)) (books db) = None"
    and "\<forall>i < length bs. \<forall>j < length bs. bookIds (k + i) = bookIds (k + j) \<longrightarrow> i = j"
  shows "\<exists>bs'. import_books bookIds now k bs db = (Resolved (), db\<lparr>books := bs'\<rparr>) \<and>
           length bs' = length (books db) + length bs \<and>
           (\<forall>j < length bs. store_get b_id (bookIds (k + j)) bs' =
                               Some (imported_book (bookIds (k + j)) now (bs ! j))) \<and>
           (\<forall>key. (\<forall>j < length bs. key \<noteq> bookIds (k + j)) \<longrightarrow>
                  store_get b_id key bs' = store_get b_id key (books db))"
  using assms
proof (induction bs arbitrary: k db)
  case Nil
  show ?case by (rule exI [of _ "books db"]) simp
next
  case (Cons b bs)
  let ?book = "imported_book (bookIds k) now b"
  let ?db1 = "db\<lparr>books := insort_key b_id ?book (books db)\<rparr>"
  have fresh: "store_get b_id (bookIds k) (books db) = None"
    using Cons.prems(1) by force
  have key: "b_id ?book = bookIds k" by (simp add: imported_book_def)
  have step: "import_books bookIds now k (b # bs) db = import_books bookIds now (Suc k) bs ?db1"
    using addBook_import_step [OF fresh, of now b] by simp
  have look1: "store_get b_id key (insort_key b_id ?book (books db)) =
                 (if key = bookIds k then Some ?book else store_get b_id key (books db))" for key
    using fresh key store_get_insort [of b_id ?book "books db" key] by simp
  have differ: "bookIds (Suc k + j) \<noteq> bookIds k" if "j < length bs" for j
  proof
    assume "bookIds (Suc k + j) = bookIds k"
    then have "bookIds (k + Suc j) = bookIds (k + 0)" by simp
    moreover have "Suc j < length (b # bs)" "0 < length (b # bs)" using that by simp_all
    ultimately have "Suc j = 0" using Cons.prems(2) by blast
    then show False by simp
  qed
  have pre1: "\<forall>j < length bs. store_get b_id (bookIds (Suc k + j)) (books ?db1) = None"
  proof (intro allI impI)
    fix j assume j: "j < length bs"
    then have "store_get b_id (bookIds (k + Suc j)) (books db) = None"
      using Cons.prems(1) by (metis Suc_less_eq length_Cons)
    with differ [OF j] show "store_get b_id (bookIds (Suc k + j)) (books ?db1) = None"
      by (simp add: look1)
  qed
  have pre2: "\<forall>i < length bs. \<forall>j < length bs. bookIds (Suc k + i) = bookIds (Suc k + j) \<longrightarrow> i = j"
  proof (intro allI impI)
    fix i j assume "i < length bs" "j < length bs" "bookIds (Suc k + i) = bookIds (Suc k + j)"
    then have "Suc i < length (b # bs)" "Suc j < length (b # bs)"
      "bookIds (k + Suc i) = bookIds (k + Suc j)" by simp_all
    then have "Suc i = Suc j" using Cons.prems(2) by blast
    then show "i = j" by simp
  qed
  from Cons.IH [OF pre1 pre2] obtain bs' where
      run: "import_books bookIds now (Suc k) bs ?db1 = (Resolved (), ?db1\<lparr>books := bs'\<rparr>)"
    and len: "length bs' = length (books ?db1) + length bs"
    and new: "\<forall>j < length bs. store_get b_id (bookIds (Suc k + j)) bs' =
                 Some (imported_book (bookIds (Suc k + j)) now (bs ! j))"
    and old: "\<forall>key. (\<forall>j < length bs. key \<noteq> bookIds (Suc k + j)) \<longrightarrow>
                 store_get b_id key bs' = store_get b_id key (books ?db1)"
    by blast
  have r: "import_books bookIds now k (b # bs) db = (Resolved (), db\<lparr>books := bs'\<rparr>)"
    using step run by simp
  have l: "length bs' = length (books db) + length (b # bs)"
    using len by simp
  have n: "store_get b_id (bookIds (k + j)) bs' =
             Some (imported_book (bookIds (k + j)) now ((b # bs) ! j))" if "j < length (b # bs)" for j
  proof (cases j)
    case 0
    have "\<forall>j < length bs. bookIds k \<noteq> bookIds (Suc k + j)" using differ by metis
    then have "store_get b_id (bookIds k) bs' = store_get b_id (bookIds k) (books ?db1)"
      using old by blast
    with 0 show ?thesis by (simp add: look1)
  next
    case (Suc j')
    with that have "j' < length bs" by simp
    with new Suc show ?thesis by simp
  qed
  have o: "store_get b_id key bs' = store_get b_id key (books db)"
    if "\<forall>j < length (b # bs). key \<noteq> bookIds (k + j)" for key
  proof -
    have "key \<noteq> bookIds k" using that by force
    moreover have "\<forall>j < length bs. key \<noteq> bookIds (Suc k + j)"
    proof (intro allI impI)
      fix j assume "j < length bs"
      then have "Suc j < length (b # bs)" by simp
      with that have "key \<noteq> bookIds (k + Suc j)" by blast
      then show "key \<noteq> bookIds (Suc k + j)" by simp
    qed
    ultimately show ?thesis using old by (simp add: look1)
  qed
  show ?case using r l n o by blast
qed

lemma addMember_import_step:
  assumes "m_email m \<notin> m_email ` set (members db)"
    and "m_phone m \<notin> m_phone ` set (members db)"
    and "code \<notin> m_memberId ` set (members db)"
    and "store_get m_id newId (members db) = None"
  shows "addMember newId code now
           \<lparr> md_name = m_name m, md_phone = m_phone m, md_email = m_email m,
             md_address = m_address m \<rparr> db =
         (Resolved (imported_member newId code now m),
          db\<lparr>members := insort_key m_id (imported_member newId code now m) (members db)\<rparr>)"
proof -
  have "\<lparr> m_id = newId, m_memberId = code, m_name = m_name m, m_phone = m_phone m,
          m_email = m_email m, m_address = m_address m, m_createdAt = now,
          m_updatedAt = now \<rparr> = imported_member newId code now m"
    by (simp add: imported_member_def)
  moreover have "m_id (imported_member newId code now m) = newId"
    by (simp add: imported_member_def)
  moreover have "\<not> list_ex (\<lambda>x. m_email x = m_email m) (members db)"
    "\<not> list_ex (\<lambda>x. m_phone x = m_phone m) (members db)"
    "\<not> list_ex (\<lambda>x. m_memberId x = code) (members db)"
    using assms(1-3) by (auto simp: list_ex_iff image_iff)
  ultimately show ?thesis
    using assms(4) by (simp add: addMember_def getAllMembers_def store_add_def Let_def)
qed

lemma import_members_result:
  assumes "\<forall>j < length ms. store_get m_id (memberIds (k + j)) (members db) = None"
    and "\<forall>i < length ms. \<forall>j < length ms. memberIds (k + i) = memberIds (k + j) \<longrightarrow> i = j"
    and "\<forall>j < length ms. memberCodes (k + j) \<notin> m_memberId ` set (members db)"
    and "\<forall>i < length ms. \<forall>j < length ms. memberCodes (k + i) = memberCodes (k + j) \<longrightarrow> i = j"
    and "distinct (map m_email ms)" and "m_email ` set ms \<inter> m_email ` set (members db) = {}"
    and "distinct (map m_phone ms)" and "m_phone ` set ms \<inter> m_phone ` set (members db) = {}"
  shows "\<exists>ms'. import_members memberIds memberCodes now k ms db =
                  (Resolved (), db\<lparr>members := ms'\<rparr>) \<and>
           length ms' = length (members db) + length ms \<and>
           (\<forall>j < length ms. store_get m_id (memberIds (k + j)) ms' =
                               Some (imported_member (memberIds (k + j)) (memberCodes (k + j)) now
                                       (ms ! j))) \<and>
           (\<forall>key. (\<forall>j < length ms. key \<noteq> memberIds (k + j)) \<longrightarrow>
                  store_get m_id key ms' = store_get m_id key (members db))"
  using assms
proof (induction ms arbitrary: k db)
  case Nil
  show ?case by (rule exI [of _ "members db"]) simp
next
  case (Cons m ms)
  let ?mem = "imported_member (memberIds k) (memberCodes k) now m"
  let ?db1 = "db\<lparr>members := insort_key m_id ?mem (members db)\<rparr>"
  have fresh: "store_get m_id (memberIds k) (members db) = None"
    using Cons.prems(1) by force
  have code_fresh: "memberCodes k \<notin> m_memberId ` set (members db)"
    using Cons.prems(3) by force
  have email_fresh: "m_email m \<notin> m_email ` set (members db)"
    and phone_fresh: "m_phone m \<notin> m_phone ` set (members db)"
    using Cons.prems(6,8) by auto
  have fields: "m_id ?mem = memberIds k" "m_memberId ?mem = memberCodes k"
    "m_email ?mem = m_email m" "m_phone ?mem = m_phone m"
    by (simp_all add: imported_member_def)
  have step: "import_members memberIds memberCodes now k (m # ms) db =
              import_members memberIds memberCodes now (Suc k) ms ?db1"
    using addMember_import_step [OF email_fresh phone_fresh code_fresh fresh, of now] by simp
  have look1: "store_get m_id key (insort_key m_id ?mem (members db)) =
                 (if key = memberIds k then Some ?mem else store_get m_id key (members db))" for key
    using fresh fields(1) store_get_insort [of m_id ?mem "members db" key] by simp
  have differ: "memberIds (Suc k + j) \<noteq> memberIds k" if "j < length ms" for j
  proof
    assume "memberIds (Suc k + j) = memberIds k"
    then have "memberIds (k + Suc j) = memberIds (k + 0)" by simp
    moreover have "Suc j < length (m # ms)" "0 < length (m # ms)" using that by simp_all
    ultimately have "Suc j = 0" using Cons.prems(2) by blast
    then show False by simp
  qed
  have code_differ: "memberCodes (Suc k + j) \<noteq> memberCodes k" if "j < length ms" for j
  proof
    assume "memberCodes (Suc k + j) = memberCodes k"
    then have "memberCodes (k + Suc j) = memberCodes (k + 0)" by simp
    moreover have "Suc j < length (m # ms)" "0 < length (m # ms)" using that by simp_all
    ultimately have "Suc j = 0" using Cons.prems(4) by blast
    then show False by simp
  qed
  have pre1: "\<forall>j < length ms. store_get m_id (memberIds (Suc k + j)) (members ?db1) = None"
  proof (intro allI impI)
    fix j assume j: "j < length ms"
    then have "store_get m_id (memberIds (k + Suc j)) (members db) = None"
      using Cons.prems(1) by (metis Suc_less_eq length_Cons)
    with differ [OF j] show "store_get m_id (memberIds (Suc k + j)) (members ?db1) = None"
      by (simp add: look1)
  qed
  have pre2: "\<forall>i < length ms. \<forall>j < length ms. memberIds (Suc k + i) = memberIds (Suc k + j) \<longrightarrow> i = j"
  proof (intro allI impI)
    fix i j assume "i < length ms" "j < length ms" "memberIds (Suc k + i) = memberIds (Suc k + j)"
    then have "Suc i < length (m # ms)" "Suc j < length (m # ms)"
      "memberIds (k + Suc i) = memberIds (k + Suc j)" by simp_all
    then have "Suc i = Suc j" using Cons.prems(2) by blast
    then show "i = j" by simp
  qed
  have pre3: "\<forall>j < length ms. memberCodes (Suc k + j) \<notin> m_memberId ` set (members ?db1)"
  proof (intro allI impI)
    fix j assume j: "j < length ms"
    then have "memberCodes (k + Suc j) \<notin> m_memberId ` set (members db)"
      using Cons.prems(3) by (metis Suc_less_eq length_Cons)
    with code_differ [OF j] show "memberCodes (Suc k + j) \<notin> m_memberId ` set (members ?db1)"
      by (simp add: set_insort_key fields)
  qed
  have pre4: "\<forall>i < length ms. \<forall>j < length ms.
                memberCodes (Suc k + i) = memberCodes (Suc k + j) \<longrightarrow> i = j"
  proof (intro allI impI)
    fix i j assume "i < length ms" "j < length ms" "memberCodes (Suc k + i) = memberCodes (Suc k + j)"
    then have "Suc i < length (m # ms)" "Suc j < length (m # ms)"
      "memberCodes (k + Suc i) = memberCodes (k + Suc j)" by simp_all
    then have "Suc i = Suc j" using Cons.prems(4) by blast
    then show "i = j" by simp
  qed
  have pre5: "distinct (map m_email ms)" and pre7: "distinct (map m_phone ms)"
    using Cons.prems(5,7) by simp_all
  have pre6: "m_email ` set ms \<inter> m_email ` set (members ?db1) = {}"
    using Cons.prems(5,6) by (auto simp: set_insort_key fields)
  have pre8: "m_phone ` set ms \<inter> m_phone ` set (members ?db1) = {}"
    using Cons.prems(7,8) by (auto simp: set_insort_key fields)
  from Cons.IH [OF pre1 pre2 pre3 pre4 pre5 pre6 pre7 pre8] obtain ms' where
      run: "import_members memberIds memberCodes now (Suc k) ms ?db1 =
              (Resolved (), ?db1\<lparr>members := ms'\<rparr>)"
    and len: "length ms' = length (members ?db1) + length ms"
    and new: "\<forall>j < length ms. store_get m_id (memberIds (Suc k + j)) ms' =
                 Some (imported_member (memberIds (Suc k + j)) (memberCodes (Suc k + j)) now (ms ! j))"
    and old: "\<forall>key. (\<forall>j < length ms. key \<noteq> memberIds (Suc k + j)) \<longrightarrow>
                 store_get m_id key ms' = store_get m_id key (members ?db1)"
    by blast
  have r: "import_members memberIds memberCodes now k (m # ms) db = (Resolved (), db\<lparr>members := ms'\<rparr>)"
    using step run by simp
  have l: "length ms' = length (members db) + length (m # ms)"
    using len by simp
  have n: "store_get m_id (memberIds (k + j)) ms' =
             Some (imported_member (memberIds (k + j)) (memberCodes (k + j)) now ((m # ms) ! j))"
    if "j < length (m # ms)" for j
  proof (cases j)
    case 0
    have "\<forall>j < length ms. memberIds k \<noteq> memberIds (Suc k + j)" using differ by metis
    then have "store_get m_id (memberIds k) ms' = store_get m_id (memberIds k) (members ?db1)"
      using old by blast
    with 0 show ?thesis by (simp add: look1)
  next
    case (Suc j')
    with that have "j' < length ms" by simp
    with new Suc show ?thesis by simp
  qed
  have o: "store_get m_id key ms' = store_get m_id key (members db)"
    if "\<forall>j < length (m # ms). key \<noteq> memberIds (k + j)" for key
  proof -
    have "key \<noteq> memberIds k" using that by force
    moreover have "\<forall>j < length ms. key \<noteq> memberIds (Suc k + j)"
    proof (intro allI impI)
      fix j assume "j < length ms"
      then have "Suc j < length (m # ms)" by simp
      with that have "key \<noteq> memberIds (k + Suc j)" by blast
      then show "key \<noteq> memberIds (Suc k + j)" by simp
    qed
    ultimately show ?thesis using old by (simp add: look1)
  qed
  show ?case using r l n o by blast
qed

lemma distinct_upt_inj:
  assumes "distinct (map f [0..<n])"
  shows "\<forall>i < n. \<forall>j < n. f (0 + i) = f (0 + j) \<longrightarrow> i = j"
proof -
  have "inj_on f (set [0..<n])" using assms by (simp add: distinct_map)
  then show ?thesis by (auto dest: inj_onD)
qed

lemma merge_all_settings:
  "merge_settings cur (all_settings s) now = s\<lparr>s_id := ''default'', s_updatedAt := now\<rparr>"
  by (simp add: merge_settings_def all_settings_def)

section \<open>Unique contacts\<close>

text \<open>
  \<^verbatim>\<open>addMember\<close> keeps emails and phones unique, whatever its outcome, and the members that
  \<^verbatim>\<open>importData\<close> leaves have unique emails and phones.
\<close>

lemma distinct_map_insort_key:
  "distinct (map f (insort_key k x xs)) \<longleftrightarrow> f x \<notin> f ` set xs \<and> distinct (map f xs)"
  by (induction xs) (auto simp: set_insort_key)

lemma addMember_unique_contacts:
  assumes "unique_contacts (members db)"
  shows "unique_contacts (members (snd (addMember newId code now md db)))"
  using assms
  by (auto simp add: addMember_def getAllMembers_def store_add_def Let_def unique_contacts_def
      distinct_map_insort_key list_ex_iff image_iff)

lemma import_members_unique_contacts:
  "unique_contacts (members db) \<Longrightarrow>
   unique_contacts (members (snd (import_members memberIds memberCodes now k ms db)))"
proof (induction ms arbitrary: k db)
  case Nil
  then show ?case by simp
next
  case (Cons m ms)
  let ?r = "addMember (memberIds k) (memberCodes k) now
              \<lparr> md_name = m_name m, md_phone = m_phone m, md_email = m_email m,
                md_address = m_address m \<rparr> db"
  have u: "unique_contacts (members (snd ?r))"
    using Cons.prems by (rule addMember_unique_contacts)
  show ?case
  proof (cases ?r)
    case (Pair p db')
    with u have "unique_contacts (members db')" by simp
    then have "unique_contacts (members (snd (import_members memberIds memberCodes now (Suc k) ms db')))"
      by (rule Cons.IH)
    with Pair \<open>unique_contacts (members db')\<close> show ?thesis by (cases p) simp_all
  qed
qed

lemma addBook_members: "members (snd (addBook newId now bd db)) = members db"
  by (simp add: addBook_def Let_def split: option.split)

lemma import_books_members: "members (snd (import_books bookIds now k bs db)) = members db"
proof (induction bs arbitrary: k db)
  case Nil
  then show ?case by simp
next
  case (Cons b bs)
  let ?r = "addBook (bookIds k) now
              \<lparr> bd_title = b_title b, bd_author = b_author b, bd_category = b_category b,
                bd_publicationYear = b_publicationYear b, bd_isbn = b_isbn b,
                bd_totalCopies = b_totalCopies b, bd_availableCopies = b_availableCopies b \<rparr> db"
  have m: "members (snd ?r) = members db" by (rule addBook_members)
  show ?case
  proof (cases ?r)
    case (Pair p db')
    with m have "members db' = members db" by simp
    with Pair Cons.IH [of "Suc k" db'] show ?thesis by (cases p) simp_all
  qed
qed

lemma importData_unique_contacts:
  "unique_contacts (members (snd (importData bookIds memberIds memberCodes now data db)))"
proof -
  let ?db1 = "db\<lparr>books := [], members := [], issues := []\<rparr>"
  let ?r2 = "case doc_books data of Some bs \<Rightarrow> import_books bookIds now 0 bs ?db1
             | None \<Rightarrow> (Resolved (), ?db1)"
  have "members (snd ?r2) = []"
    by (cases "doc_books data") (simp_all add: import_books_members)
  then have u2: "unique_contacts (members (snd ?r2))" by (simp add: unique_contacts_def)
  obtain p2 db2 where r2: "?r2 = (p2, db2)" by (cases ?r2)
  with u2 have u2': "unique_contacts (members db2)" by simp
  let ?r3 = "case doc_members data of Some ms \<Rightarrow> import_members memberIds memberCodes now 0 ms db2
             | None \<Rightarrow> (Resolved (), db2)"
  have u3: "unique_contacts (members (snd ?r3))"
    using u2' by (cases "doc_members data") (simp_all add: import_members_unique_contacts)
  obtain p3 db3 where r3: "?r3 = (p3, db3)" by (cases ?r3)
  with u3 have u3': "unique_contacts (members db3)" by simp
  show ?thesis
    unfolding importData_def clearAllData_def
    using r2 r3 u2' u3'
    apply (simp add: await_def)
    apply (cases p2; simp)
    apply (cases p3; simp)
    apply (cases "doc_settings data"; simp add: saveSettings_def Let_def await_def)
    done
qed

section \<open>The number of issues with status \<open>issued\<close>\<close>

text \<open>
  \<^verbatim>\<open>getMemberIssues\<close> counts the issues of a member with status \<open>issued\<close>. With a
  settings record in place, \<^verbatim>\<open>issueBook\<close> and \<^verbatim>\<open>returnBook\<close> keep this count within
  \<open>maxBooksPerMember\<close>.
\<close>

lemma length_filter_insort_key:
  "length (filter P (insort_key k x xs)) =
     (if P x then Suc (length (filter P xs)) else length (filter P xs))"
  by (induction xs) auto

lemma length_filter_conj_le: "length (filter (\<lambda>x. Q x \<and> P x) xs) \<le> length (filter P xs)"
  by (induction xs) auto

lemma length_filter_store_put:
  "\<not> P r \<Longrightarrow> length (filter P (store_put key r xs)) \<le> length (filter P xs)"
  by (simp add: store_put_def length_filter_insort_key length_filter_conj_le)

lemma getMemberIssues_issues:
  "getMemberIssues m (db\<lparr>issues := is, books := bs\<rparr>) =
     filter (\<lambda>issue. i_memberId issue = m \<and> i_status issue = Issued) is"
  by (simp add: getMemberIssues_def getAllIssues_def)

lemma issueBook_settings: "getSettings (snd (issueBook newId now bookId memberId due db)) = getSettings db"
  using issueBook_state [of newId now bookId memberId due db] by (auto simp: getSettings_def)

lemma returnBook_settings: "getSettings (snd (returnBook now issueId db)) = getSettings db"
  using returnBook_state [of now issueId db] by (auto simp: getSettings_def)

lemma returnBook_issued_count:
  "length (getMemberIssues m (snd (returnBook now issueId db))) \<le> length (getMemberIssues m db)"
proof (cases "store_get i_id issueId (issues db)")
  case None
  then show ?thesis by (simp add: returnBook_def)
next
  case (Some existing)
  show ?thesis
  proof (cases "i_status existing = Returned")
    case True
    with Some show ?thesis by (simp add: returnBook_def)
  next
    case False
    let ?issue = "existing\<lparr>i_returnDate := Some now,
                    i_status := (if i_dueDate existing < now then Overdue else Returned),
                    i_updatedAt := now\<rparr>"
    let ?db1 = "db\<lparr>issues := store_put i_id ?issue (issues db)\<rparr>"
    have "issues (snd (returnBook now issueId db)) = store_put i_id ?issue (issues db)"
      using Some False
      by (simp add: returnBook_def Let_def snd_in_handler updateBookAvailability_issues)
    moreover have "\<not> (i_memberId ?issue = m \<and> i_status ?issue = Issued)" by simp
    ultimately show ?thesis
      by (simp add: getMemberIssues_def getAllIssues_def length_filter_store_put)
  qed
qed

lemma issueBook_issued_count:
  assumes "getSettings db = Some s"
    and "int (length (getMemberIssues m db)) \<le> s_maxBooksPerMember s"
  shows "int (length (getMemberIssues m (snd (issueBook newId now bookId memberId due db))))
           \<le> s_maxBooksPerMember s"
  using issueBook_state [of newId now bookId memberId due db]
proof
  assume "snd (issueBook newId now bookId memberId due db) = db"
  with assms(2) show ?thesis by simp
next
  assume "\<exists>issue bs settings. i_id issue = newId \<and> i_status issue = Issued \<and>
      i_memberId issue = memberId \<and>
      store_get i_id newId (issues db) = None \<and>
      getSettings db = Some settings \<and>
      int (length (getMemberIssues memberId db)) < s_maxBooksPerMember settings \<and>
      snd (issueBook newId now bookId memberId due db) =
        db\<lparr>issues := insort_key i_id issue (issues db), books := bs\<rparr>"
  then obtain issue bs where i: "i_status issue = Issued" "i_memberId issue = memberId"
      "int (length (getMemberIssues memberId db)) < s_maxBooksPerMember s"
      "snd (issueBook newId now bookId memberId due db) =
         db\<lparr>issues := insort_key i_id issue (issues db), books := bs\<rparr>"
    using assms(1) by auto
  show ?thesis
  proof (cases "m = memberId")
    case True
    with i(1,2,3) show ?thesis
      unfolding i(4) getMemberIssues_issues
      by (simp add: length_filter_insort_key getMemberIssues_def getAllIssues_def)
  next
    case False
    with i(2) assms(2) show ?thesis
      unfolding i(4) getMemberIssues_issues
      by (simp add: length_filter_insort_key getMemberIssues_def getAllIssues_def)
  qed
qed

lemma issued_count_apply_op:
  assumes "getSettings db = Some s"
    and "int (length (getMemberIssues m db)) \<le> s_maxBooksPerMember s"
  shows "getSettings (apply_op x db) = Some s \<and>
         int (length (getMemberIssues m (apply_op x db))) \<le> s_maxBooksPerMember s"
proof (cases x)
  case (IssueBook newId now bookId memberId due)
  then show ?thesis
    using assms issueBook_issued_count [OF assms, of newId now bookId memberId due]
    by (simp add: issueBook_settings)
next
  case (ReturnBook now issueId)
  then show ?thesis
    using assms returnBook_issued_count [of m now issueId db]
    by (simp add: returnBook_settings)
qed

lemma issued_count_run_ops:
  "getSettings db = Some s \<Longrightarrow> int (length (getMemberIssues m db)) \<le> s_maxBooksPerMember s \<Longrightarrow>
   int (length (getMemberIssues m (run_ops ops db))) \<le> s_maxBooksPerMember s"
proof (induction ops arbitrary: db)
  case Nil
  then show ?case by simp
next
  case (Cons x xs)
  from issued_count_apply_op [OF Cons.prems, of x] Cons.IH [of "apply_op x db"]
  show ?case by simp
qed

section \<open>C1: available copies stay within bounds\<close>

text \<open>
  C1. When every book of the store has \<open>0 \<le> availableCopies \<le> totalCopies\<close>, every book
  has it again after any sequence of \<^verbatim>\<open>issueBook\<close> and \<^verbatim>\<open>returnBook\<close> calls, whatever
  their arguments and whether they succeed or fail.
\<close>

theorem availableCopies_within_bounds:
  assumes "\<forall>b \<in> set (books db). 0 \<le> b_availableCopies b \<and> b_availableCopies b \<le> b_totalCopies b"
  shows "\<forall>b \<in> set (books (run_ops ops db)).
           0 \<le> b_availableCopies b \<and> b_availableCopies b \<le> b_totalCopies b"
  using run_ops_copies_ok [of db ops] assms by (simp add: copies_ok_def)

theorem availableCopies_within_bounds_witness:
  "list_all (\<lambda>b. 0 \<le> b_availableCopies b \<and> b_availableCopies b \<le> b_totalCopies b) (books ex_db) \<and>
   list_all (\<lambda>b. 0 \<le> b_availableCopies b \<and> b_availableCopies b \<le> b_totalCopies b)
     (books (run_ops [IssueBook ''i1'' 0 ''b1'' ''m1'' None, ReturnBook (20 * day) ''i1''] ex_db))"
proof -
  have h: "\<forall>b \<in> set (books ex_db). 0 \<le> b_availableCopies b \<and> b_availableCopies b \<le> b_totalCopies b"
    by (simp add: ex_db_def ex_book_def)
  show ?thesis
    using h availableCopies_within_bounds
          [OF h, of "[IssueBook ''i1'' 0 ''b1'' ''m1'' None, ReturnBook (20 * day) ''i1'']"]
    by (simp add: list_all_iff)
qed

section \<open>C2: export followed by import\<close>

text \<open>
  C2, amended. Let the identifiers drawn during the import be pairwise distinct and let no
  two members of the exported store share an email or a phone. Then \<^verbatim>\<open>importData\<close> of the
  document of \<^verbatim>\<open>exportData\<close>, on any store, resolves and leaves one book for each exported
  book, with its title, author, category, publication year, ISBN and total copies, under a
  new identifier, with all copies available and new timestamps; one member for each
  exported member, with its name, phone, email and address, under a new identifier and a
  new member code; and the exported settings with \<open>updatedAt = now\<close>.
\<close>

theorem export_import_roundtrip:
  assumes "distinct (map bookIds [0..<length (books db)])"
    and "distinct (map memberIds [0..<length (members db)])"
    and "distinct (map memberCodes [0..<length (members db)])"
    and "distinct (map m_email (members db))"
    and "distinct (map m_phone (members db))"
  shows "fst (importData bookIds memberIds memberCodes now (exportData db) db0) = Resolved () \<and>
         length (books (snd (importData bookIds memberIds memberCodes now (exportData db) db0))) =
           length (books db) \<and>
         (\<forall>k < length (books db).
            getBookById (bookIds k)
                (snd (importData bookIds memberIds memberCodes now (exportData db) db0)) =
              Some ((books db ! k)\<lparr>b_id := bookIds k,
                                    b_availableCopies := b_totalCopies (books db ! k),
                                    b_createdAt := now, b_updatedAt := now\<rparr>)) \<and>
         length (members (snd (importData bookIds memberIds memberCodes now (exportData db) db0))) =
           length (members db) \<and>
         (\<forall>k < length (members db).
            getMemberById (memberIds k)
                (snd (importData bookIds memberIds memberCodes now (exportData db) db0)) =
              Some ((members db ! k)\<lparr>m_id := memberIds k, m_memberId := memberCodes k,
                                      m_createdAt := now, m_updatedAt := now\<rparr>)) \<and>
         getSettings (snd (importData bookIds memberIds memberCodes now (exportData db) db0)) =
           Some ((case getSettings db of Some s \<Rightarrow> s | None \<Rightarrow> this_settings db)
                   \<lparr>s_id := ''default'', s_updatedAt := now\<rparr>)"
proof -
  let ?db1 = "db0\<lparr>books := [], members := [], issues := []\<rparr>"
  let ?s = "case getSettings db of Some s \<Rightarrow> s | None \<Rightarrow> this_settings db"
  have "\<forall>j < length (books db). store_get b_id (bookIds (0 + j)) (books ?db1) = None"
    by (simp add: store_get_def)
  from import_books_result [OF this distinct_upt_inj [OF assms(1)], of now]
  obtain bs' where
      run_b: "import_books bookIds now 0 (books db) ?db1 = (Resolved (), ?db1\<lparr>books := bs'\<rparr>)"
    and len_b: "length bs' = length (books db)"
    and new_b: "\<forall>j < length (books db). store_get b_id (bookIds j) bs' =
                  Some (imported_book (bookIds j) now (books db ! j))"
    by auto
  let ?db2 = "?db1\<lparr>books := bs'\<rparr>"
  have m1: "\<forall>j < length (members db). store_get m_id (memberIds (0 + j)) (members ?db2) = None"
    and m3: "\<forall>j < length (members db). memberCodes (0 + j) \<notin> m_memberId ` set (members ?db2)"
    and m6: "m_email ` set (members db) \<inter> m_email ` set (members ?db2) = {}"
    and m8: "m_phone ` set (members db) \<inter> m_phone ` set (members ?db2) = {}"
    by (simp_all add: store_get_def)
  from import_members_result [OF m1 distinct_upt_inj [OF assms(2)] m3 distinct_upt_inj [OF assms(3)]
      assms(4) m6 assms(5) m8, of now]
  obtain ms' where
      run_m: "import_members memberIds memberCodes now 0 (members db) ?db2 =
                (Resolved (), ?db2\<lparr>members := ms'\<rparr>)"
    and len_m: "length ms' = length (members db)"
    and new_m: "\<forall>j < length (members db). store_get m_id (memberIds j) ms' =
                  Some (imported_member (memberIds j) (memberCodes j) now (members db ! j))"
    by auto
  let ?db3 = "?db2\<lparr>members := ms'\<rparr>"
  have run: "importData bookIds memberIds memberCodes now (exportData db) db0 =
               (Resolved (),
                ?db3\<lparr>this_settings := ?s\<lparr>s_id := ''default'', s_updatedAt := now\<rparr>,
                      settingsStore := Some (?s\<lparr>s_id := ''default'', s_updatedAt := now\<rparr>)\<rparr>)"
    using run_b run_m
    by (simp add: importData_def exportData_def clearAllData_def await_def saveSettings_def
        getAllBooks_def getAllMembers_def merge_all_settings Let_def)
  show ?thesis
    unfolding run using len_b new_b len_m new_m
    by (simp add: getBookById_def getMemberById_def getSettings_def imported_book_def
        imported_member_def)
qed

theorem export_import_roundtrip_witness:
  "distinct (map (ex_ids ''b'') [0..<length (books ex_library_db)]) \<and>
   distinct (map (ex_ids ''m'') [0..<length (members ex_library_db)]) \<and>
   distinct (map (ex_ids ''LIB'') [0..<length (members ex_library_db)]) \<and>
   distinct (map m_email (members ex_library_db)) \<and>
   distinct (map m_phone (members ex_library_db)) \<and>
   books ex_library_db = [ex_book4\<lparr>b_availableCopies := 3, b_updatedAt := 20 * day\<rparr>] \<and>
   members ex_library_db = [ex_member, ex_member2] \<and>
   getSettings ex_library_db = Some ex_settings \<and>
   fst (importData (ex_ids ''b'') (ex_ids ''m'') (ex_ids ''LIB'') 5 (exportData ex_library_db)
          ex_empty_db) = Resolved () \<and>
   getBookById ''b+''
       (snd (importData (ex_ids ''b'') (ex_ids ''m'') (ex_ids ''LIB'') 5 (exportData ex_library_db)
               ex_empty_db)) =
     Some (ex_book4\<lparr>b_id := ''b+'', b_createdAt := 5, b_updatedAt := 5\<rparr>) \<and>
   getMemberById ''m++''
       (snd (importData (ex_ids ''b'') (ex_ids ''m'') (ex_ids ''LIB'') 5 (exportData ex_library_db)
               ex_empty_db)) =
     Some (ex_member2\<lparr>m_id := ''m++'', m_memberId := ''LIB++'', m_createdAt := 5,
                        m_updatedAt := 5\<rparr>) \<and>
   getSettings
       (snd (importData (ex_ids ''b'') (ex_ids ''m'') (ex_ids ''LIB'') 5 (exportData ex_library_db)
               ex_empty_db)) =
     Some (ex_settings\<lparr>s_updatedAt := 5\<rparr>)"
proof -
  have h1: "distinct (map (ex_ids ''b'') [0..<length (books ex_library_db)])"
    and h2: "distinct (map (ex_ids ''m'') [0..<length (members ex_library_db)])"
    and h3: "distinct (map (ex_ids ''LIB'') [0..<length (members ex_library_db)])"
    and h4: "distinct (map m_email (members ex_library_db))"
    and h5: "distinct (map m_phone (members ex_library_db))"
    by code_simp+
  have bs: "books ex_library_db = [ex_book4\<lparr>b_availableCopies := 3, b_updatedAt := 20 * day\<rparr>]"
    and ms: "members ex_library_db = [ex_member, ex_member2]"
    and st: "getSettings ex_library_db = Some ex_settings"
    by code_simp+
  have ids: "ex_ids ''b'' 0 = ''b+''" "ex_ids ''m'' (Suc 0) = ''m++''"
    "ex_ids ''LIB'' (Suc 0) = ''LIB++''"
    by (simp_all add: ex_ids_def)
  note w = export_import_roundtrip [OF h1 h2 h3 h4 h5, of 5 ex_empty_db]
  have r: "fst (importData (ex_ids ''b'') (ex_ids ''m'') (ex_ids ''LIB'') 5
                  (exportData ex_library_db) ex_empty_db) = Resolved ()"
    using w by blast
  have "0 < length (books ex_library_db)" by (simp add: bs)
  with w have "getBookById (ex_ids ''b'' 0)
       (snd (importData (ex_ids ''b'') (ex_ids ''m'') (ex_ids ''LIB'') 5 (exportData ex_library_db)
               ex_empty_db)) =
     Some ((books ex_library_db ! 0)\<lparr>b_id := ex_ids ''b'' 0,
              b_availableCopies := b_totalCopies (books ex_library_db ! 0),
              b_createdAt := 5, b_updatedAt := 5\<rparr>)"
    by blast
  then have b: "getBookById ''b+''
       (snd (importData (ex_ids ''b'') (ex_ids ''m'') (ex_ids ''LIB'') 5 (exportData ex_library_db)
               ex_empty_db)) =
     Some (ex_book4\<lparr>b_id := ''b+'', b_createdAt := 5, b_updatedAt := 5\<rparr>)"
    by (simp add: bs ids ex_book4_def)
  have "1 < length (members ex_library_db)" by (simp add: ms)
  with w have "getMemberById (ex_ids ''m'' 1)
       (snd (importData (ex_ids ''b'') (ex_ids ''m'') (ex_ids ''LIB'') 5 (exportData ex_library_db)
               ex_empty_db)) =
     Some ((members ex_library_db ! 1)\<lparr>m_id := ex_ids ''m'' 1, m_memberId := ex_ids ''LIB'' 1,
              m_createdAt := 5, m_updatedAt := 5\<rparr>)"
    by blast
  then have m: "getMemberById ''m++''
       (snd (importData (ex_ids ''b'') (ex_ids ''m'') (ex_ids ''LIB'') 5 (exportData ex_library_db)
               ex_empty_db)) =
     Some (ex_member2\<lparr>m_id := ''m++'', m_memberId := ''LIB++'', m_createdAt := 5,
                        m_updatedAt := 5\<rparr>)"
    by (simp add: ms ids)
  have "getSettings
       (snd (importData (ex_ids ''b'') (ex_ids ''m'') (ex_ids ''LIB'') 5 (exportData ex_library_db)
               ex_empty_db)) =
     Some ((case getSettings ex_library_db of Some s \<Rightarrow> s | None \<Rightarrow> this_settings ex_library_db)
             \<lparr>s_id := ''default'', s_updatedAt := 5\<rparr>)"
    using w by blast
  then have s: "getSettings
       (snd (importData (ex_ids ''b'') (ex_ids ''m'') (ex_ids ''LIB'') 5 (exportData ex_library_db)
               ex_empty_db)) =
     Some (ex_settings\<lparr>s_updatedAt := 5\<rparr>)"
    by (simp add: st ex_settings_def)
  show ?thesis
    using h1 h2 h3 h4 h5 bs ms st r b m s by blast
qed

text \<open>
  C2 as stated fails, even when the import happens to draw the identifiers of the exported
  records again: the imported book has all four copies available where the exported one had
  three, so the book store differs, and the two issue records of the document are not
  inserted.
\<close>

theorem export_import_not_identity_counterexample:
  "fst (importData (\<lambda>_. ''b1'') (\<lambda>_. ''m1'') (\<lambda>_. ''LIB000001001'') 0 (exportData ex_late_db)
          ex_empty_db) = Resolved () \<and>
   map b_availableCopies (books ex_late_db) = [3] \<and>
   map b_availableCopies
     (books (snd (importData (\<lambda>_. ''b1'') (\<lambda>_. ''m1'') (\<lambda>_. ''LIB000001001'') 0
                    (exportData ex_late_db) ex_empty_db))) = [4] \<and>
   books (snd (importData (\<lambda>_. ''b1'') (\<lambda>_. ''m1'') (\<lambda>_. ''LIB000001001'') 0
                 (exportData ex_late_db) ex_empty_db)) \<noteq> books ex_late_db \<and>
   issue_summary ex_late_db =
     [(''i1'', ''m1'', Overdue, Some (20 * day)), (''i2'', ''m1'', Issued, None)] \<and>
   issues (snd (importData (\<lambda>_. ''b1'') (\<lambda>_. ''m1'') (\<lambda>_. ''LIB000001001'') 0
                  (exportData ex_late_db) ex_empty_db)) = []"
  by code_simp

section \<open>C3: returning an issue twice\<close>

text \<open>
  C3. An issue that came back late has its return date set and the status \<open>overdue\<close>.
  \<^verbatim>\<open>returnBook\<close> only refuses the status \<open>returned\<close>: called again on that issue it
  resolves, overwrites the return date and adds a copy to the book a second time, so that
  all four copies count as available while the second issue is still out. An identifier
  that is not in the store is rejected, and so is a second return of an issue that came back
  in time.
\<close>

theorem returnBook_again_after_late_return:
  "issue_summary ex_late_db =
     [(''i1'', ''m1'', Overdue, Some (20 * day)), (''i2'', ''m1'', Issued, None)] \<and>
   map b_availableCopies (books ex_late_db) = [3] \<and>
   fst (returnBook (21 * day) ''i1'' ex_late_db) =
     Resolved \<lparr> i_id = ''i1'', i_bookId = ''b1'', i_memberId = ''m1'', i_bookTitle = ''Dune'',
                 i_memberName = ''Ann'', i_issueDate = 0, i_dueDate = 14 * day,
                 i_returnDate = Some (21 * day), i_status = Overdue, i_createdAt = 0,
                 i_updatedAt = 21 * day \<rparr> \<and>
   issue_summary (snd (returnBook (21 * day) ''i1'' ex_late_db)) =
     [(''i1'', ''m1'', Overdue, Some (21 * day)), (''i2'', ''m1'', Issued, None)] \<and>
   map b_availableCopies (books (snd (returnBook (21 * day) ''i1'' ex_late_db))) = [4] \<and>
   fst (returnBook (21 * day) ''i9'' ex_late_db) = Rejected IssueRecordNotFound \<and>
   issue_summary (snd (returnBook (10 * day) ''i1'' ex_issued_db)) =
     [(''i1'', ''m1'', Returned, Some (10 * day))] \<and>
   fst (returnBook (11 * day) ''i1'' (snd (returnBook (10 * day) ''i1'' ex_issued_db))) =
     Rejected BookAlreadyReturned"
  by code_simp

section \<open>C4: when issuing fails and what it does\<close>




section \<open>C5: the loan limit\<close>

text \<open>
  C5. A member with three issued books and a limit of three is refused a fourth. Once the
  sweep has flipped the three issues to \<open>overdue\<close> (none of them returned),
  \<^verbatim>\<open>getMemberIssues\<close> no longer counts them and the fourth issue goes through: the member
  holds four books that have not come back. The rest of the code reads the status
  \<open>overdue\<close> as a late return: before the sweep \<^verbatim>\<open>getDashboardStats\<close> reports three
  books issued, three overdue and no returns, after it no book issued, none overdue and
  three returns.
\<close>

theorem issueBook_beyond_limit_after_sweep:
  "s_maxBooksPerMember ex_settings = 3 \<and>
   issue_summary ex_three_db =
     [(''i1'', ''m1'', Issued, None), (''i2'', ''m1'', Issued, None), (''i3'', ''m1'', Issued, None)] \<and>
   fst (issueBook ''i4'' (15 * day) ''b1'' ''m1'' None ex_three_db) = Rejected (MemberLimitReached 3) \<and>
   fst (updateOverdueStatus (15 * day) ex_three_db) = Resolved () \<and>
   issue_summary (snd (updateOverdueStatus (15 * day) ex_three_db)) =
     [(''i1'', ''m1'', Overdue, None), (''i2'', ''m1'', Overdue, None), (''i3'', ''m1'', Overdue, None)] \<and>
   issue_summary (snd (issueBook ''i4'' (15 * day) ''b1'' ''m1'' None
                         (snd (updateOverdueStatus (15 * day) ex_three_db)))) =
     [(''i1'', ''m1'', Overdue, None), (''i2'', ''m1'', Overdue, None), (''i3'', ''m1'', Overdue, None),
      (''i4'', ''m1'', Issued, None)] \<and>
   getDashboardStats (15 * day) ex_three_db =
     \<lparr> ds_totalBooks = 1, ds_totalMembers = 1, ds_booksAvailable = 1, ds_booksIssued = 3,
       ds_overdueCount = 3, ds_totalIssues = 3, ds_totalReturns = 0 \<rparr> \<and>
   getDashboardStats (15 * day) (snd (updateOverdueStatus (15 * day) ex_three_db)) =
     \<lparr> ds_totalBooks = 1, ds_totalMembers = 1, ds_booksAvailable = 1, ds_booksIssued = 0,
       ds_overdueCount = 0, ds_totalIssues = 3, ds_totalReturns = 3 \<rparr>"
  by code_simp

section \<open>C6: returning a book\<close>

text \<open>
  C6. The issue is in the store, has the status \<open>issued\<close> and no return date, but its book
  has been deleted. \<^verbatim>\<open>returnBook\<close> writes the return into the issue record (late, so with
  the status \<open>overdue\<close>) and then never settles: it does not succeed, and no copy comes
  back. With the book in the store it resolves, and the copy comes back
  (\<open>returnBook_success\<close>).
\<close>

theorem returnBook_unreturned_issue_never_settles:
  "store_get i_id ''i1'' (issues ex_orphan_db) = Some ex_issue \<and>
   i_returnDate ex_issue = None \<and>
   i_status ex_issue = Issued \<and>
   getBookById (i_bookId ex_issue) ex_orphan_db = None \<and>
   fst (returnBook (20 * day) ''i1'' ex_orphan_db) = Pending \<and>
   store_get i_id ''i1'' (issues (snd (returnBook (20 * day) ''i1'' ex_orphan_db))) =
     Some (ex_issue\<lparr>i_returnDate := Some (20 * day), i_status := Overdue,
                    i_updatedAt := 20 * day\<rparr>) \<and>
   books (snd (returnBook (20 * day) ''i1'' ex_orphan_db)) = []"
  by code_simp

section \<open>C7: the overdue sweep is idempotent\<close>

text \<open>
  C7. On an issue store with unique ascending keys (which the operations maintain, see
  \<open>issues_ok_run_ops\<close>), \<^verbatim>\<open>updateOverdueStatus\<close> at the instant
  \<open>now\<close> resolves and changes exactly the issues with status \<open>issued\<close> and
  \<open>dueDate < now\<close>, which get the status \<open>overdue\<close> (and \<open>updatedAt = now\<close>); a second
  sweep at the same instant resolves and leaves the state of the first as it is.
\<close>

theorem updateOverdueStatus_idempotent:
  assumes "store_ok i_id (issues db)"
  shows "updateOverdueStatus now db =
           (Resolved (),
            db\<lparr>issues :=
                 map (\<lambda>i. if i_status i = Issued \<and> i_dueDate i < now
                          then i\<lparr>i_status := Overdue, i_updatedAt := now\<rparr> else i) (issues db)\<rparr>) \<and>
         updateOverdueStatus now (snd (updateOverdueStatus now db)) =
           (Resolved (), snd (updateOverdueStatus now db))"
proof -
  have first: "updateOverdueStatus now db = (Resolved (), db\<lparr>issues := map (flip_overdue now) (issues db)\<rparr>)"
    using assms by (rule updateOverdueStatus_result)
  have second: "updateOverdueStatus now (db\<lparr>issues := map (flip_overdue now) (issues db)\<rparr>) =
                  (Resolved (), db\<lparr>issues := map (flip_overdue now) (issues db)\<rparr>)"
    by (simp add: updateOverdueStatus_def getAllIssues_def Let_def flip_overdue_done)
  have unfold: "map (flip_overdue now) (issues db) =
                map (\<lambda>i. if i_status i = Issued \<and> i_dueDate i < now
                          then i\<lparr>i_status := Overdue, i_updatedAt := now\<rparr> else i) (issues db)"
    by (simp add: flip_overdue_def)
  show ?thesis using first second unfold by simp
qed

theorem updateOverdueStatus_idempotent_witness:
  "store_ok i_id (issues ex_late_db) \<and>
   updateOverdueStatus (15 * day) ex_late_db =
     (Resolved (),
      ex_late_db\<lparr>issues :=
         map (\<lambda>i. if i_status i = Issued \<and> i_dueDate i < 15 * day
                  then i\<lparr>i_status := Overdue, i_updatedAt := 15 * day\<rparr> else i) (issues ex_late_db)\<rparr>) \<and>
   updateOverdueStatus (15 * day) (snd (updateOverdueStatus (15 * day) ex_late_db)) =
     (Resolved (), snd (updateOverdueStatus (15 * day) ex_late_db)) \<and>
   issue_summary ex_late_db =
     [(''i1'', ''m1'', Overdue, Some (20 * day)), (''i2'', ''m1'', Issued, None)] \<and>
   issue_summary (snd (updateOverdueStatus (15 * day) ex_late_db)) =
     [(''i1'', ''m1'', Overdue, Some (20 * day)), (''i2'', ''m1'', Overdue, None)]"
proof -
  have ok: "store_ok i_id (issues ex_late_db)"
    by code_simp
  have before: "issue_summary ex_late_db =
     [(''i1'', ''m1'', Overdue, Some (20 * day)), (''i2'', ''m1'', Issued, None)]"
    by code_simp
  have after: "issue_summary (snd (updateOverdueStatus (15 * day) ex_late_db)) =
     [(''i1'', ''m1'', Overdue, Some (20 * day)), (''i2'', ''m1'', Overdue, None)]"
    by code_simp
  show ?thesis
    using ok before after updateOverdueStatus_idempotent [OF ok, of "15 * day"] by blast
qed

section \<open>C8: partial failure of a return\<close>

text \<open>
  C8. When the book of an issue has been deleted, \<^verbatim>\<open>returnBook\<close> writes the returned issue
  record, \<^verbatim>\<open>updateBookAvailability\<close> then throws inside the \<^verbatim>\<open>async\<close> success handler, and
  the promise given to the caller is neither resolved nor rejected.
\<close>

theorem returnBook_missing_book_never_settles:
  "issue_summary ex_orphan_db = [(''i1'', ''m1'', Issued, None)] \<and>
   books ex_orphan_db = [] \<and>
   fst (returnBook day ''i1'' ex_orphan_db) = Pending \<and>
   issue_summary (snd (returnBook day ''i1'' ex_orphan_db)) =
     [(''i1'', ''m1'', Returned, Some day)] \<and>
   books (snd (returnBook day ''i1'' ex_orphan_db)) = []"
  by code_simp

section \<open>C9: unique email and phone\<close>

text \<open>
  C9. \<^verbatim>\<open>addMember\<close> rejects an email that is in use, \<^verbatim>\<open>updateMember\<close> does not look:
  it gives the second member the email and the phone of the first.
\<close>

theorem updateMember_duplicates_email_and_phone:
  "map (\<lambda>m. (m_id m, m_email m, m_phone m)) (members ex_two_members_db) =
     [(''m1'', ''ann@x.org'', ''555''), (''m2'', ''bob@x.org'', ''777'')] \<and>
   fst (addMember ''m3'' ''LIB000003003'' 1
          \<lparr> md_name = ''Eve'', md_phone = ''999'', md_email = ''ann@x.org'', md_address = None \<rparr>
          ex_two_members_db) = Rejected EmailExists \<and>
   fst (updateMember ''m2''
          \<lparr> mu_name = None, mu_phone = Some ''555'', mu_email = Some ''ann@x.org'', mu_address = None \<rparr>
          1 ex_two_members_db) =
     Resolved (ex_member2\<lparr>m_phone := ''555'', m_email := ''ann@x.org'', m_updatedAt := 1\<rparr>) \<and>
   map (\<lambda>m. (m_id m, m_email m, m_phone m))
     (members (snd (updateMember ''m2''
          \<lparr> mu_name = None, mu_phone = Some ''555'', mu_email = Some ''ann@x.org'', mu_address = None \<rparr>
          1 ex_two_members_db))) =
     [(''m1'', ''ann@x.org'', ''555''), (''m2'', ''ann@x.org'', ''555'')]"
  by code_simp

section \<open>C10: new books start with all copies available\<close>

text \<open>
  C10. \<^verbatim>\<open>addBook\<close> with an unused identifier stores a book whose \<open>availableCopies\<close> equals
  its \<open>totalCopies\<close>, the \<open>totalCopies\<close> of the argument, whatever \<open>availableCopies\<close> the
  caller passed; with an identifier in use it rejects and stores nothing. Every book in the
  store after \<^verbatim>\<open>importData\<close> has all its copies available.
\<close>

theorem addBook_all_copies_available:
  "(store_get b_id newId (books db) = None \<longrightarrow>
      (\<exists>book db'. addBook newId now bookData db = (Resolved book, db') \<and>
         getBookById newId db' = Some book \<and>
         b_totalCopies book = bd_totalCopies bookData \<and>
         b_availableCopies book = b_totalCopies book)) \<and>
   (store_get b_id newId (books db) \<noteq> None \<longrightarrow>
      addBook newId now bookData db = (Rejected FailedToAddBook, db)) \<and>
   (\<forall>b \<in> set (books (snd (importData bookIds memberIds memberCodes now data db))).
      b_availableCopies b = b_totalCopies b)"
  using addBook_fresh [of newId db now bookData] addBook_taken [of newId db now bookData]
    importData_full_stock [of bookIds memberIds memberCodes now data db]
  by (simp add: full_stock_def)

theorem addBook_all_copies_available_witness:
  "store_get b_id ''b2'' (books ex_db) = None \<and>
   (\<exists>book db'. addBook ''b2'' 5 ex_book_data ex_db = (Resolved book, db') \<and>
      getBookById ''b2'' db' = Some book \<and>
      b_totalCopies book = 5 \<and> b_availableCopies book = 5) \<and>
   store_get b_id ''b1'' (books ex_db) \<noteq> None \<and>
   addBook ''b1'' 5 ex_book_data ex_db = (Rejected FailedToAddBook, ex_db) \<and>
   list_all (\<lambda>b. b_availableCopies b = b_totalCopies b)
     (books (snd (importData (ex_ids ''b'') (ex_ids ''m'') (ex_ids ''LIB'') 5
                    (exportData ex_late_db) ex_db)))"
proof -
  have fresh: "store_get b_id ''b2'' (books ex_db) = None"
    by (simp add: store_get_def ex_db_def ex_book_def)
  have taken: "store_get b_id ''b1'' (books ex_db) \<noteq> None"
    by (simp add: store_get_def ex_db_def ex_book_def)
  have total: "bd_totalCopies ex_book_data = 5"
    by (simp add: ex_book_data_def)
  show ?thesis
    using fresh taken total
      addBook_all_copies_available [of "''b2''" ex_db 5 ex_book_data "ex_ids ''b''" "ex_ids ''m''"
        "ex_ids ''LIB''" "exportData ex_late_db"]
      addBook_all_copies_available [of "''b1''" ex_db 5 ex_book_data "ex_ids ''b''" "ex_ids ''m''"
        "ex_ids ''LIB''" "exportData ex_late_db"]
    by (auto simp add: list_all_iff)
qed

end
